theory Spec2Isabelle
  imports Complex_Main "HOL-Library.Sublist" "HOL-Library.AList" "HOL-Library.Multiset"
begin

section \<open>JavaScript numbers and objects\<close>

text \<open>
  A JavaScript number is an IEEE 754 double: \<^verbatim>\<open>NaN\<close>, one of the two infinities, or a
  finite double, kept here as the rational number it denotes. Negative zero is
  identified with zero: the operations of the program that are modelled here
  (\<^verbatim>\<open>+\<close>, \<^verbatim>\<open>-\<close>, \<^verbatim>\<open>|| 0\<close>) give the same result on both, up to that identification.
\<close>

datatype number = NaN | PosInf | NegInf | Finite rat

text \<open>The double that denotes a whole number (one that is a double: see \<open>to_number\<close>).\<close>

definition whole :: "int \<Rightarrow> number" where
  "whole i = Finite (of_int i)"

text \<open>
  Rounding to the nearest double, ties to even. The exponent of a magnitude \<open>a\<close> is
  the largest \<open>e\<close> from 1023 down with \<open>2^e \<le> a\<close>, and \<open>-1022\<close> below the normal
  range; the doubles around \<open>a\<close> are the multiples of \<open>2^(e - 52)\<close>. A rounded magnitude
  of \<open>2^1024\<close> or more is an infinity.
\<close>

function exponent_from :: "int \<Rightarrow> rat \<Rightarrow> int" where
  "exponent_from k a = (if k \<le> - 1022 \<or> power_int 2 k \<le> a then k else exponent_from (k - 1) a)"
  by pat_completeness auto
termination
  by (relation "measure (\<lambda>(k, a). nat (k + 1022))") auto

declare exponent_from.simps [simp del]

definition round_half_even :: "rat \<Rightarrow> int" where
  "round_half_even x =
     (let f = \<lfloor>x\<rfloor>; d = x - of_int f
      in if d < 1 / 2 then f else if 1 / 2 < d then f + 1 else if even f then f else f + 1)"

definition fl :: "rat \<Rightarrow> number" where
  "fl r =
     (if r = 0 then Finite 0
      else
        (let e = exponent_from 1023 \<bar>r\<bar>;
             q = power_int 2 (e - 52);
             v = of_int (round_half_even (r / q)) * q
         in if power_int 2 1024 \<le> \<bar>v\<bar> then (if 0 < r then PosInf else NegInf) else Finite v))"

text \<open>The operators \<^verbatim>\<open>+\<close> and \<^verbatim>\<open>-\<close> on numbers.\<close>

fun js_neg :: "number \<Rightarrow> number" where
  "js_neg NaN = NaN"
| "js_neg PosInf = NegInf"
| "js_neg NegInf = PosInf"
| "js_neg (Finite x) = Finite (- x)"

fun js_add :: "number \<Rightarrow> number \<Rightarrow> number" where
  "js_add (Finite x) (Finite y) = fl (x + y)"
| "js_add NaN b = NaN"
| "js_add a NaN = NaN"
| "js_add PosInf NegInf = NaN"
| "js_add NegInf PosInf = NaN"
| "js_add PosInf b = PosInf"
| "js_add NegInf b = NegInf"
| "js_add a PosInf = PosInf"
| "js_add a NegInf = NegInf"

definition js_sub :: "number \<Rightarrow> number \<Rightarrow> number" where
  "js_sub a b = js_add a (js_neg b)"

text \<open>
  The number a whole amount is when it is read as a double, as the parser of a JSON
  document and \<^verbatim>\<open>Number(t.amount)\<close> give it: the nearest double.
\<close>

definition to_number :: "int \<Rightarrow> number" where
  "to_number n = fl (of_int n)"

text \<open>
  What a property of the object \<^verbatim>\<open>balances\<close> can hold: a number, or a value that is
  not a number (a function or an object inherited from \<^verbatim>\<open>Object.prototype\<close>, or the
  string that \<^verbatim>\<open>+\<close> makes of one). \<^verbatim>\<open>+\<close> with such an operand concatenates strings,
  \<^verbatim>\<open>-\<close> with such an operand is \<^verbatim>\<open>NaN\<close>. The falsy values among these are 0 and
  \<^verbatim>\<open>NaN\<close>; \<^verbatim>\<open>x || 0\<close> is 0 for them and for a property that does not exist.
\<close>

datatype val = Num number | Other

fun plus_val :: "val \<Rightarrow> val \<Rightarrow> val" where
  "plus_val (Num a) (Num b) = Num (js_add a b)"
| "plus_val a b = Other"

fun minus_val :: "val \<Rightarrow> val \<Rightarrow> val" where
  "minus_val (Num a) (Num b) = Num (js_sub a b)"
| "minus_val a b = Num NaN"

fun falsy :: "val \<Rightarrow> bool" where
  "falsy (Num NaN) = True"
| "falsy (Num (Finite x)) = (x = 0)"
| "falsy v = False"

definition or_zero :: "val option \<Rightarrow> val" where
  "or_zero v = (case v of None \<Rightarrow> Num (Finite 0) | Some x \<Rightarrow> if falsy x then Num (Finite 0) else x)"

text \<open>
  An object literal inherits the members of \<^verbatim>\<open>Object.prototype\<close>: reading a key that
  is not an own property finds the inherited member, if the key names one. Assigning
  to a key creates or replaces the own property, except for \<^verbatim>\<open>__proto__\<close>, whose
  setter ignores a primitive value and, given \<^verbatim>\<open>Object.prototype\<close> itself, changes
  nothing; no other value is assigned to it here.
\<close>

definition Object_prototype :: "string list" where
  "Object_prototype =
     [''constructor'', ''__defineGetter__'', ''__defineSetter__'', ''hasOwnProperty'',
      ''__lookupGetter__'', ''__lookupSetter__'', ''isPrototypeOf'', ''propertyIsEnumerable'',
      ''toString'', ''valueOf'', ''__proto__'', ''toLocaleString'']"

definition property :: "(string \<rightharpoonup> val) \<Rightarrow> string \<Rightarrow> val option" where
  "property own k =
     (case own k of
        Some v \<Rightarrow> Some v
      | None \<Rightarrow> if k \<in> set Object_prototype then Some Other else None)"

definition assign :: "string \<Rightarrow> val \<Rightarrow> (string \<times> val) list \<Rightarrow> (string \<times> val) list" where
  "assign k v b = (if k = ''__proto__'' then b else AList.update k v b)"

text \<open>
  The own properties of an object are kept as an association list in the order of
  their creation: assigning to a key that is present replaces its value in place,
  assigning to a new key appends it, which is what \<^const>\<open>AList.update\<close> does.
  \<^verbatim>\<open>Object.values\<close> lists the keys that are array indices (canonical decimal numerals
  below \<open>2^32 - 1\<close>) first, in ascending order, and then the other keys in the order of
  their creation.
\<close>

definition array_index :: "string \<Rightarrow> int option" where
  "array_index k =
     (if k = [] \<or> \<not> list_all (\<lambda>c. c \<in> set ''0123456789'') k \<or> (hd k = CHR ''0'' \<and> k \<noteq> ''0'')
      then None
      else (let n = foldl (\<lambda>a c. 10 * a + (of_char c - 48)) 0 k
            in if n < 2 ^ 32 - 1 then Some n else None))"

definition own_entries :: "(string \<times> 'v) list \<Rightarrow> (string \<times> 'v) list" where
  "own_entries b =
     sort_key (\<lambda>p. the (array_index (fst p))) (filter (\<lambda>p. array_index (fst p) \<noteq> None) b)
     @ filter (\<lambda>p. array_index (fst p) = None) b"

definition Object_values :: "(string \<times> 'v) list \<Rightarrow> 'v list" where
  "Object_values b = map snd (own_entries b)"

section \<open>Data model (types.ts)\<close>

text \<open>
  The amount inputs of the form are number inputs with the default step, so the
  amounts the program produces are whole numbers: the field \<open>amount\<close> of a transaction
  is an integer, on which the arithmetic of the form (\<^verbatim>\<open>Math.floor(total / 2)\<close>,
  \<^verbatim>\<open>total - half\<close>) is exact, as it is on doubles of magnitude below \<open>2^53\<close>. The balance
  engine reads the amount as a double (\<open>to_number\<close>) and computes on doubles; initial
  balances are doubles. Strings are byte lists; text outside ASCII is written as its
  UTF-8 bytes.
\<close>

datatype TransactionType = EXPENSE | INCOME | TRANSFER

record Transaction =
  tx_id :: string
  date :: string
  tx_type :: "TransactionType option"
  source :: string
  destination :: string
  amount :: int
  summary :: string
  payer :: "string option"
  projectCode :: "string option"
  invoiceNumber :: "string option"

record AppSettings =
  commonSources :: "string list"
  commonDestinations :: "string list"
  commonIncomeSources :: "string list"
  commonNotes :: "string list"
  initialBalances :: "(string \<rightharpoonup> number) option"

section \<open>Balance engine (Dashboard.tsx, the stats memo)\<close>

text \<open>
  The object \<^verbatim>\<open>balances\<close> starts empty. \<^verbatim>\<open>balances[acc] = initialBalances[acc] || 0\<close>
  reads the initial balance as a property of the object \<^verbatim>\<open>initialBalances\<close> (own
  entries are numbers), and \<^verbatim>\<open>(balances[k] || 0) - amount\<close> and
  \<^verbatim>\<open>(balances[k] || 0) + amount\<close> read \<^verbatim>\<open>balances[k]\<close> the same way; the guards
  \<^verbatim>\<open>if (t.source)\<close> and \<^verbatim>\<open>if (t.destination)\<close> skip the empty string.
\<close>

record walk =
  balances :: "(string \<times> val) list"
  monthlyIncome :: number
  monthlyExpense :: number

record Stats = walk +
  totalAssets :: val

definition replace_all :: "char \<Rightarrow> char \<Rightarrow> string \<Rightarrow> string" where
  "replace_all a b s = map (\<lambda>c. if c = a then b else c) s"

definition startsWith :: "string \<Rightarrow> string \<Rightarrow> bool" where
  "startsWith s p = prefix p s"

definition init_account ::
  "(string \<rightharpoonup> number) \<Rightarrow> string \<Rightarrow> (string \<times> val) list \<Rightarrow> (string \<times> val) list" where
  "init_account initial acc b =
     assign acc (or_zero (property (map_option Num \<circ> initial) acc)) b"

definition decrease :: "string \<Rightarrow> number \<Rightarrow> walk \<Rightarrow> walk" where
  "decrease k amt w =
     (if k \<noteq> []
      then w\<lparr>balances :=
               assign k (minus_val (or_zero (property (map_of (balances w)) k)) (Num amt)) (balances w)\<rparr>
      else w)"

definition increase :: "string \<Rightarrow> number \<Rightarrow> walk \<Rightarrow> walk" where
  "increase k amt w =
     (if k \<noteq> []
      then w\<lparr>balances :=
               assign k (plus_val (or_zero (property (map_of (balances w)) k)) (Num amt)) (balances w)\<rparr>
      else w)"

definition stats_step :: "string \<Rightarrow> Transaction \<Rightarrow> walk \<Rightarrow> walk" where
  "stats_step currentMonth t w =
     (let amt = to_number (amount t);
          isCurrentMonth = startsWith (replace_all (CHR ''/'') (CHR ''-'') (date t)) currentMonth
      in if tx_type t = None \<or> tx_type t = Some EXPENSE then
           (let w1 = decrease (source t) amt w
            in if isCurrentMonth then w1\<lparr>monthlyExpense := js_add (monthlyExpense w1) amt\<rparr> else w1)
         else if tx_type t = Some INCOME then
           (let w1 = increase (destination t) amt w
            in if isCurrentMonth then w1\<lparr>monthlyIncome := js_add (monthlyIncome w1) amt\<rparr> else w1)
         else if tx_type t = Some TRANSFER then
           increase (destination t) amt (decrease (source t) amt w)
         else w)"

text \<open>
  \<open>currentMonth\<close> is \<^verbatim>\<open>new Date().toISOString().slice(0, 7)\<close>, the moment of
  evaluation, a parameter here. The prop \<^verbatim>\<open>initialBalances\<close> defaults to \<^verbatim>\<open>{}\<close>.
  \<^verbatim>\<open>totalAssets\<close> is \<^verbatim>\<open>Object.values(balances).reduce((acc, val) => acc + val, 0)\<close>.
\<close>

definition Dashboard_stats ::
  "string \<Rightarrow> Transaction list \<Rightarrow> string list \<Rightarrow> (string \<rightharpoonup> number) option \<Rightarrow> Stats" where
  "Dashboard_stats currentMonth txs accounts initialBalances_prop =
     (let initial = (case initialBalances_prop of None \<Rightarrow> Map.empty | Some m \<Rightarrow> m);
          w0 = \<lparr>balances = fold (init_account initial) accounts [],
                monthlyIncome = Finite 0, monthlyExpense = Finite 0\<rparr>;
          w = fold (stats_step currentMonth) txs w0
      in \<lparr>balances = balances w, monthlyIncome = monthlyIncome w,
          monthlyExpense = monthlyExpense w,
          totalAssets = foldl (\<lambda>acc val. plus_val acc val) (Num (Finite 0))
                          (Object_values (balances w))\<rparr>)"

text \<open>
  The rules of the balance engine as the specification words them: what one
  transaction adds to the balance of one account, and where an account starts (its
  initial balance, 0 if absent).
\<close>

definition spec_effect :: "Transaction \<Rightarrow> string \<Rightarrow> int" where
  "spec_effect t acc =
     (case tx_type t of
        None \<Rightarrow> (if source t = acc then - amount t else 0)
      | Some EXPENSE \<Rightarrow> (if source t = acc then - amount t else 0)
      | Some INCOME \<Rightarrow> (if destination t = acc then amount t else 0)
      | Some TRANSFER \<Rightarrow>
          (if source t = acc then - amount t else 0) + (if destination t = acc then amount t else 0))"

definition spec_initial :: "string list \<Rightarrow> (string \<rightharpoonup> number) option \<Rightarrow> string \<Rightarrow> val" where
  "spec_initial accounts initialBalances_prop acc =
     (if acc \<in> set accounts
      then (case initialBalances_prop of
              None \<Rightarrow> Num (Finite 0)
            | Some m \<Rightarrow> or_zero (map_option Num (m acc)))
      else Num (Finite 0))"

text \<open>
  The accounts one transaction writes to, and what it adds to the monthly figures.
\<close>

definition touched :: "Transaction \<Rightarrow> string set" where
  "touched t =
     (case tx_type t of
        None \<Rightarrow> {source t} - {[]}
      | Some EXPENSE \<Rightarrow> {source t} - {[]}
      | Some INCOME \<Rightarrow> {destination t} - {[]}
      | Some TRANSFER \<Rightarrow> {source t, destination t} - {[]})"

definition month_expense :: "string \<Rightarrow> Transaction \<Rightarrow> int" where
  "month_expense currentMonth t =
     (if (tx_type t = None \<or> tx_type t = Some EXPENSE)
         \<and> startsWith (replace_all (CHR ''/'') (CHR ''-'') (date t)) currentMonth
      then amount t else 0)"

definition month_income :: "string \<Rightarrow> Transaction \<Rightarrow> int" where
  "month_income currentMonth t =
     (if tx_type t = Some INCOME
         \<and> startsWith (replace_all (CHR ''/'') (CHR ''-'') (date t)) currentMonth
      then amount t else 0)"

text \<open>
  An object whose own keys are the set \<open>K\<close> and whose value at \<open>k\<close> is the whole number
  \<open>I k\<close>.
\<close>

definition whole_map :: "string set \<Rightarrow> (string \<Rightarrow> int) \<Rightarrow> (string \<rightharpoonup> val)" where
  "whole_map K I = (\<lambda>k. if k \<in> K then Some (Num (whole (I k))) else None)"

section \<open>Settings editor (SettingsDialog.tsx)\<close>

text \<open>
  \<^verbatim>\<open>commonSources[index]\<close> out of range is \<^verbatim>\<open>undefined\<close>, and the key deleted is then
  the string \<^verbatim>\<open>"undefined"\<close>. \<^verbatim>\<open>filter((_, i) => i !== index)\<close> keeps every position
  but \<open>index\<close>.
\<close>

definition filter_index :: "(nat \<Rightarrow> bool) \<Rightarrow> 'a list \<Rightarrow> 'a list" where
  "filter_index p xs = map snd (filter (\<lambda>(i, x). p i) (enumerate 0 xs))"

definition handleDeleteSource :: "nat \<Rightarrow> AppSettings \<Rightarrow> AppSettings" where
  "handleDeleteSource index prev =
     (let nameToRemove =
            (if index < length (commonSources prev) then commonSources prev ! index else ''undefined'');
          spread = (case initialBalances prev of None \<Rightarrow> Map.empty | Some m \<Rightarrow> m);
          newBalances = spread(nameToRemove := None)
      in prev\<lparr>commonSources := filter_index (\<lambda>i. i \<noteq> index) (commonSources prev),
              initialBalances := Some newBalances\<rparr>)"

text \<open>\<^verbatim>\<open>settings.initialBalances?.[k]\<close>: the entry of an account, if any.\<close>

definition initialBalance_of :: "AppSettings \<Rightarrow> string \<Rightarrow> number option" where
  "initialBalance_of s k = (case initialBalances s of None \<Rightarrow> None | Some m \<Rightarrow> m k)"

section \<open>Transaction form (TransactionForm.tsx)\<close>

text \<open>
  The states \<^verbatim>\<open>amount\<close>, \<^verbatim>\<open>amountA\<close> and \<^verbatim>\<open>amountB\<close> hold a number or a string:
  \<open>Blank\<close> is the empty string, \<open>Typed n\<close> the text of a number input that reads as
  \<open>n\<close> (a non-empty string, so truthy even for 0), \<open>Numeric n\<close> the number \<open>n\<close>.
\<close>

datatype field = Blank | Typed int | Numeric int

fun truthy :: "field \<Rightarrow> bool" where
  "truthy Blank = False"
| "truthy (Typed n) = True"
| "truthy (Numeric n) = (n \<noteq> 0)"

fun Number :: "field \<Rightarrow> int" where
  "Number Blank = 0"
| "Number (Typed n) = n"
| "Number (Numeric n) = n"

record form =
  f_type :: TransactionType
  f_date :: string
  f_source :: string
  f_destination :: string
  f_amount :: field
  f_summary :: string
  f_payer :: string
  isSplit :: bool
  destinationA :: string
  destinationB :: string
  amountA :: field
  amountB :: field

text \<open>The effect on \<^verbatim>\<open>[amount, isSplit]\<close>: the default split of the total.\<close>

definition split_effect :: "form \<Rightarrow> form" where
  "split_effect f =
     (if isSplit f \<and> truthy (f_amount f) then
        (let total = Number (f_amount f);
             half = total div 2
         in f\<lparr>amountA := Numeric half, amountB := Numeric (total - half)\<rparr>)
      else f)"

text \<open>Typing into an item's amount: \<open>val\<close> is the text of the input.\<close>

definition handleAmountAChange :: "field \<Rightarrow> form \<Rightarrow> form" where
  "handleAmountAChange val f =
     f\<lparr>amountA := val, amountB := Numeric (Number (f_amount f) - Number val)\<rparr>"

definition handleAmountBChange :: "field \<Rightarrow> form \<Rightarrow> form" where
  "handleAmountBChange val f =
     f\<lparr>amountB := val, amountA := Numeric (Number (f_amount f) - Number val)\<rparr>"

definition UNCATEGORIZED :: string where
  "UNCATEGORIZED = [CHR 0xE6, CHR 0x9C, CHR 0xAA, CHR 0xE5, CHR 0x88, CHR 0x86, CHR 0xE9, CHR 0xA1, CHR 0x9E]"

definition baseTransaction :: "form \<Rightarrow> Transaction" where
  "baseTransaction f =
     \<lparr>tx_id = [], date = replace_all (CHR ''-'') (CHR ''/'') (f_date f), tx_type = Some (f_type f),
      source = f_source f, destination = [], amount = Number (f_amount f),
      summary = f_summary f, payer = Some (f_payer f),
      projectCode = Some [], invoiceNumber = Some []\<rparr>"

definition reset_form :: "Transaction option \<Rightarrow> form \<Rightarrow> form" where
  "reset_form editingTransaction f =
     (if editingTransaction = None
      then f\<lparr>f_summary := [], f_amount := Blank, amountA := Blank, amountB := Blank\<rparr>
      else f)"

text \<open>
  \<open>handleSubmit\<close> returns what it hands to \<^verbatim>\<open>onSubmit\<close> (\<open>None\<close> when it returns
  before calling it) and the form state it leaves. \<open>uuidv4 k\<close> is the value of the
  \<open>k\<close>-th call of \<^verbatim>\<open>uuidv4()\<close> within this submit.
\<close>

definition handleSubmit ::
  "(nat \<Rightarrow> string) \<Rightarrow> Transaction option \<Rightarrow> form \<Rightarrow> Transaction list option \<times> form" where
  "handleSubmit uuidv4 editingTransaction f =
     (if f_source f = [] \<or> \<not> truthy (f_amount f) then (None, f)
      else if (f_type f = INCOME \<or> f_type f = TRANSFER) \<and> f_destination f = [] then (None, f)
      else
        (let base = baseTransaction f;
             single_destination =
               (if f_type f = EXPENSE
                then (if f_destination f \<noteq> [] then f_destination f else UNCATEGORIZED)
                else f_destination f)
         in case editingTransaction of
              Some e \<Rightarrow>
                (Some [base\<lparr>tx_id := tx_id e, destination := single_destination\<rparr>],
                 reset_form editingTransaction f)
            | None \<Rightarrow>
                if f_type f = EXPENSE \<and> isSplit f then
                  (if destinationA f = [] \<or> destinationB f = [] then (None, f)
                   else
                     (let t1 = base\<lparr>tx_id := uuidv4 0, destination := destinationA f,
                                     amount := Number (amountA f)\<rparr>;
                          t2 = base\<lparr>tx_id := uuidv4 1, tx_type := Some EXPENSE,
                                     source := f_source f, summary := f_summary f,
                                     payer := Some (f_payer f), projectCode := Some [],
                                     invoiceNumber := Some [], date := date base,
                                     destination := destinationB f,
                                     amount := Number (amountB f)\<rparr>
                      in (Some [t1, t2], reset_form editingTransaction f)))
                else
                  (Some [base\<lparr>tx_id := uuidv4 0, destination := single_destination\<rparr>],
                   reset_form editingTransaction f)))"

section \<open>Remote store adapter (services/dropbox.ts)\<close>

text \<open>
  What the program reads of an object thrown by the Dropbox SDK: \<^verbatim>\<open>error.status\<close>,
  the misspelt \<^verbatim>\<open>error.reponse\<close> (only its truthiness), \<^verbatim>\<open>error.response\<close> (absent, or
  an object with its \<^verbatim>\<open>status\<close>), \<^verbatim>\<open>error.error['.tag']\<close>,
  \<^verbatim>\<open>error.error.path_lookup['.tag']\<close>, \<^verbatim>\<open>error.error_summary\<close>, \<^verbatim>\<open>error.message\<close> and
  the text \<^verbatim>\<open>JSON.stringify(error)\<close>.
\<close>

record js_error =
  status :: "nat option"
  reponse :: bool
  response :: "nat option option"
  error_tag :: "string option"
  path_lookup_tag :: "string option"
  error_summary :: "string option"
  message :: "string option"
  json :: string

definition Error :: "string \<Rightarrow> js_error" where
  "Error msg = \<lparr>status = None, reponse = False, response = None, error_tag = None,
                path_lookup_tag = None, error_summary = None, message = Some msg, json = ''{}''\<rparr>"

definition TypeError :: js_error where
  "TypeError = Error ''Cannot read properties of undefined''"

definition str_includes :: "string \<Rightarrow> string \<Rightarrow> bool" where
  "str_includes s sub = sublist sub s"

text \<open>
  The documents the program stores, the requests it sends to the SDK, and what it shows
  the user.
\<close>

datatype doc =
    TransactionsDoc "Transaction list"
  | SettingsDoc AppSettings
  | RegistryDoc "string list"

datatype request =
    GetMetadata string
  | Download string
  | Upload string doc
  | MoveV2 string string
  | DeleteV2 string
  | TokenRevoke

datatype prompt = ConfirmLogout | ConfirmOpenLogoutPage | ConfirmDeleteTransaction

datatype alert =
    AuthExpired
  | CannotCheckFile
  | LoadFailed
  | EditDone
  | SaveFailed string
  | DeleteFailed
  | SettingsSaveFailed

datatype ui_event = Alert alert | WindowOpen string

text \<open>
  The SDK is outside the program: each of its calls is a function of the state \<open>'r\<close> of
  the outside world that answers with an error or a result and leaves a new outside
  state. \<open>download_*\<close> is \<^verbatim>\<open>filesDownload\<close> followed by \<^verbatim>\<open>JSON.parse(text) as T\<close>, one
  field for each \<open>T\<close> the program reads (\<open>None\<close> when the response carries no blob; the
  registry's \<^verbatim>\<open>profiles\<close> member may be missing); a failure to parse is one of its
  errors.
\<close>

record 'r sdk =
  filesGetMetadata :: "string \<Rightarrow> 'r \<Rightarrow> (js_error + unit) \<times> 'r"
  download_transactions :: "string \<Rightarrow> 'r \<Rightarrow> (js_error + Transaction list option) \<times> 'r"
  download_settings :: "string \<Rightarrow> 'r \<Rightarrow> (js_error + AppSettings option) \<times> 'r"
  download_registry :: "string \<Rightarrow> 'r \<Rightarrow> (js_error + string list option option) \<times> 'r"
  filesUpload :: "string \<Rightarrow> doc \<Rightarrow> 'r \<Rightarrow> (js_error + unit) \<times> 'r"
  filesMoveV2 :: "string \<Rightarrow> string \<Rightarrow> 'r \<Rightarrow> (js_error + unit) \<times> 'r"
  filesDeleteV2 :: "string \<Rightarrow> 'r \<Rightarrow> (js_error + unit) \<times> 'r"
  authTokenRevoke :: "'r \<Rightarrow> (js_error + unit) \<times> 'r"

datatype Dropbox = Dropbox (accessToken: string) (refreshToken: "string option")

text \<open>
  One state for the service object (\<open>this_*\<close>), the browser's \<^verbatim>\<open>localStorage\<close>, the
  React state of \<^verbatim>\<open>App\<close>, the outside world, and the log of what the program did to
  it: the requests sent to the SDK, in order, and the alerts and windows shown.
\<close>

record 'r world =
  this_dbx :: "Dropbox option"
  this_auth :: bool
  this_currentProfile :: string
  localStorage :: "string \<rightharpoonup> string"
  transactions :: "Transaction list"
  editingTransaction :: "Transaction option"
  isAuthenticated :: bool
  isLoading :: bool
  settings :: AppSettings
  profiles :: "string list"
  currentProfile :: string
  recentSources :: "string list"
  recentDestinations :: "string list"
  outside :: 'r
  requests :: "request list"
  ui :: "ui_event list"

definition sdk_call ::
  "request \<Rightarrow> ('r \<Rightarrow> (js_error + 'a) \<times> 'r) \<Rightarrow> 'r world \<Rightarrow> (js_error + 'a) \<times> 'r world" where
  "sdk_call rq f w =
     (case f (outside w) of
        (res, r') \<Rightarrow> (res, w\<lparr>outside := r', requests := requests w @ [rq]\<rparr>))"

definition setAccessToken :: "string \<Rightarrow> string option \<Rightarrow> 'r world \<Rightarrow> 'r world" where
  "setAccessToken token refresh w =
     (case refresh of
        Some r \<Rightarrow> if r \<noteq> [] then w\<lparr>this_dbx := Some (Dropbox token (Some r))\<rparr>
                  else w\<lparr>this_dbx := Some (Dropbox token None)\<rparr>
      | None \<Rightarrow> w\<lparr>this_dbx := Some (Dropbox token None)\<rparr>)"

definition logout :: "'r sdk \<Rightarrow> 'r world \<Rightarrow> 'r world" where
  "logout E w =
     (let w1 = (if this_dbx w \<noteq> None then snd (sdk_call TokenRevoke (authTokenRevoke E) w) else w)
      in w1\<lparr>this_dbx := None, this_auth := False,
             localStorage := (localStorage w1)(''dropbox_token'' := None,
                                              ''dropbox_refresh_token'' := None)\<rparr>)"

definition setProfile :: "string \<Rightarrow> 'r world \<Rightarrow> 'r world" where
  "setProfile profileName w = w\<lparr>this_currentProfile := profileName\<rparr>"

definition getProfile :: "'r world \<Rightarrow> string" where
  "getProfile w = this_currentProfile w"

definition getPath :: "string \<Rightarrow> 'r world \<Rightarrow> string" where
  "getPath filename w =
     (let cleanName = (if startsWith filename ''/'' then drop 1 filename else filename)
      in if this_currentProfile w = ''Default'' then ''/'' @ cleanName
         else ''/profiles/'' @ this_currentProfile w @ ''/'' @ cleanName)"

definition checkFileExists ::
  "'r sdk \<Rightarrow> string \<Rightarrow> bool \<Rightarrow> 'r world \<Rightarrow> (js_error + bool) \<times> 'r world" where
  "checkFileExists E filename isAbsolute w =
     (if this_dbx w = None then (Inr False, w)
      else
        (let path = (if isAbsolute then filename else getPath filename w)
         in case sdk_call (GetMetadata path) (filesGetMetadata E path) w of
              (Inr _, w1) \<Rightarrow> (Inr True, w1)
            | (Inl error, w1) \<Rightarrow>
                (let tag = (case error_tag error of
                              Some t \<Rightarrow> if t \<noteq> [] then Some t else path_lookup_tag error
                            | None \<Rightarrow> path_lookup_tag error)
                 in if tag = Some ''path_not_found'' \<or> str_includes (json error) ''path_not_found''
                    then (Inr False, w1)
                    else (Inl error, w1))))"

definition uploadFile ::
  "'r sdk \<Rightarrow> doc \<Rightarrow> string \<Rightarrow> bool \<Rightarrow> 'r world \<Rightarrow> (js_error + unit) \<times> 'r world" where
  "uploadFile E data filename isAbsolute w =
     (if this_dbx w = None then (Inl (Error ''Not authenticated''), w)
      else
        (let path = (if isAbsolute then filename else getPath filename w)
         in sdk_call (Upload path data) (filesUpload E path data) w))"

definition downloadFile ::
  "(string \<Rightarrow> 'r \<Rightarrow> (js_error + 'a option) \<times> 'r) \<Rightarrow> string \<Rightarrow> bool \<Rightarrow> 'r world
     \<Rightarrow> (js_error + 'a option) \<times> 'r world" where
  "downloadFile filesDownload_as filename isAbsolute w =
     (if this_dbx w = None then (Inl (Error ''Not authenticated''), w)
      else
        (let path = (if isAbsolute then filename else getPath filename w)
         in case sdk_call (Download path) (filesDownload_as path) w of
              (Inr parsed, w1) \<Rightarrow> (Inr parsed, w1)
            | (Inl error, w1) \<Rightarrow>
                if str_includes (json error) ''path_not_found'' then (Inr None, w1)
                else (Inl error, w1)))"

definition getProfiles :: "'r sdk \<Rightarrow> 'r world \<Rightarrow> (js_error + string list) \<times> 'r world" where
  "getProfiles E w =
     (if this_dbx w = None then (Inr [''Default''], w)
      else case downloadFile (download_registry E) ''/profiles.json'' True w of
             (Inr data, w1) \<Rightarrow>
               (case data of
                  Some (Some registered) \<Rightarrow> (Inr registered, w1)
                | _ \<Rightarrow> (Inr [''Default''], w1))
           | (Inl error, w1) \<Rightarrow> (Inr [''Default''], w1))"

definition addProfile :: "'r sdk \<Rightarrow> string \<Rightarrow> 'r world \<Rightarrow> (js_error + unit) \<times> 'r world" where
  "addProfile E name w =
     (case getProfiles E w of
        (Inl error, w1) \<Rightarrow> (Inl error, w1)
      | (Inr registered, w1) \<Rightarrow>
          if name \<notin> set registered
          then uploadFile E (RegistryDoc (registered @ [name])) ''/profiles.json'' True w1
          else (Inr (), w1))"


definition deleteProfile :: "'r sdk \<Rightarrow> string \<Rightarrow> 'r world \<Rightarrow> (js_error + unit) \<times> 'r world" where
  "deleteProfile E name w =
     (if this_dbx w = None then (Inl (Error ''Not authenticated''), w)
      else if name = ''Default'' then (Inl (Error ''Cannot delete Default profile''), w)
      else
        (let w1 = snd (sdk_call (DeleteV2 (''/profiles/'' @ name))
                         (filesDeleteV2 E (''/profiles/'' @ name)) w)
         in case getProfiles E w1 of
              (Inl error, w2) \<Rightarrow> (Inl error, w2)
            | (Inr registered, w2) \<Rightarrow>
                (case uploadFile E (RegistryDoc (filter (\<lambda>p. p \<noteq> name) registered))
                        ''/profiles.json'' True w2 of
                   (Inl error, w3) \<Rightarrow> (Inl error, w3)
                 | (Inr _, w3) \<Rightarrow>
                     (Inr (),
                      if this_currentProfile w3 = name
                      then w3\<lparr>this_currentProfile := ''Default''\<rparr> else w3))))"

definition loadSettings :: "'r sdk \<Rightarrow> 'r world \<Rightarrow> (js_error + AppSettings option) \<times> 'r world" where
  "loadSettings E w = downloadFile (download_settings E) ''settings.json'' False w"

definition saveSettings :: "'r sdk \<Rightarrow> AppSettings \<Rightarrow> 'r world \<Rightarrow> (js_error + unit) \<times> 'r world" where
  "saveSettings E s w = uploadFile E (SettingsDoc s) ''settings.json'' False w"

section \<open>Ledger store (App.tsx)\<close>

definition DEFAULT_SETTINGS :: AppSettings where
  "DEFAULT_SETTINGS =
     \<lparr>commonSources =
        [[CHR 0xE5, CHR 0x9C, CHR 0x8B, CHR 0xE6, CHR 0xB3, CHR 0xB0] @ ''PLAY(''
           @ [CHR 0xE8, CHR 0xA1, CHR 0x97, CHR 0xE5, CHR 0x8F, CHR 0xA3] @ '')'',
         [CHR 0xE7, CHR 0x8F, CHR 0xBE, CHR 0xE9, CHR 0x87, CHR 0x91],
         [CHR 0xE4, CHR 0xB8, CHR 0xAD, CHR 0xE4, CHR 0xBF, CHR 0xA1] @ ''LINE PAY'',
         [CHR 0xE5, CHR 0x8F, CHR 0xB0, CHR 0xE6, CHR 0x96, CHR 0xB0] @ ''GoGo'',
         [CHR 0xE8, CHR 0x81, CHR 0xAF, CHR 0xE9, CHR 0x82, CHR 0xA6, CHR 0xE8, CHR 0xB3, CHR 0xB4,
          CHR 0xE9, CHR 0xBB, CHR 0x9E, CHR 0xE5, CHR 0x8D, CHR 0xA1]],
      commonDestinations =
        [[CHR 0xE6, CHR 0x97, CHR 0xA9, CHR 0xE9, CHR 0xA4, CHR 0x90],
         [CHR 0xE5, CHR 0x8D, CHR 0x88, CHR 0xE9, CHR 0xA4, CHR 0x90],
         [CHR 0xE6, CHR 0x99, CHR 0x9A, CHR 0xE9, CHR 0xA4, CHR 0x90],
         [CHR 0xE9, CHR 0xA3, CHR 0xB2, CHR 0xE6, CHR 0x96, CHR 0x99],
         [CHR 0xE4, CHR 0xBA, CHR 0xA4, CHR 0xE9, CHR 0x80, CHR 0x9A],
         [CHR 0xE8, CHR 0xB6, CHR 0x85, CHR 0xE5, CHR 0xB8, CHR 0x82],
         [CHR 0xE6, CHR 0x88, CHR 0xBF, CHR 0xE7, CHR 0xA7, CHR 0x9F],
         [CHR 0xE5, CHR 0xA8, CHR 0x9B, CHR 0xE6, CHR 0xA8, CHR 0x82],
         [CHR 0xE9, CHR 0x86, CHR 0xAB, CHR 0xE7, CHR 0x99, CHR 0x82],
         [CHR 0xE5, CHR 0x85, CHR 0xB6, CHR 0xE4, CHR 0xBB, CHR 0x96]],
      commonIncomeSources =
        [[CHR 0xE8, CHR 0x96, CHR 0xAA, CHR 0xE8, CHR 0xB3, CHR 0x87],
         [CHR 0xE7, CHR 0x8D, CHR 0x8E, CHR 0xE9, CHR 0x87, CHR 0x91],
         [CHR 0xE6, CHR 0x8A, CHR 0x95, CHR 0xE8, CHR 0xB3, CHR 0x87],
         [CHR 0xE5, CHR 0x9B, CHR 0x9E, CHR 0xE9, CHR 0xA5, CHR 0x8B],
         [CHR 0xE5, CHR 0x85, CHR 0xB6, CHR 0xE4, CHR 0xBB, CHR 0x96]],
      commonNotes =
        [[CHR 0xE6, CHR 0x97, CHR 0xA9, CHR 0xE9, CHR 0xA4, CHR 0x90],
         [CHR 0xE5, CHR 0x8D, CHR 0x88, CHR 0xE9, CHR 0xA4, CHR 0x90],
         [CHR 0xE6, CHR 0x99, CHR 0x9A, CHR 0xE9, CHR 0xA4, CHR 0x90],
         [CHR 0xE9, CHR 0xA3, CHR 0xB2, CHR 0xE6, CHR 0x96, CHR 0x99],
         [CHR 0xE4, CHR 0xBA, CHR 0xA4, CHR 0xE9, CHR 0x80, CHR 0x9A]],
      initialBalances = None\<rparr>"

definition show_alert :: "alert \<Rightarrow> 'r world \<Rightarrow> 'r world" where
  "show_alert a w = w\<lparr>ui := ui w @ [Alert a]\<rparr>"

text \<open>
  \<open>user\<close> is the user's answer to each \<^verbatim>\<open>confirm()\<close> a handler may ask; a handler asks
  each of its questions at most once.

  \<open>handleLogout\<close> is asynchronous and \<open>loadDataAndSettings\<close> calls it without awaiting
  it: its state updates land after the caller has returned. The fields it writes are
  written by nothing else that is pending then, so the model runs it to its end at the
  place of the call.
\<close>

definition handleLogout :: "'r sdk \<Rightarrow> (prompt \<Rightarrow> bool) \<Rightarrow> 'r world \<Rightarrow> 'r world" where
  "handleLogout E user w =
     (if user ConfirmLogout then
        (let w1 = logout E w;
             w2 = w1\<lparr>isAuthenticated := False, transactions := []\<rparr>
         in if user ConfirmOpenLogoutPage
            then w2\<lparr>ui := ui w2 @ [WindowOpen ''https://www.dropbox.com/logout'']\<rparr>
            else w2)
      else w)"

text \<open>\<^verbatim>\<open>Array.from(new Set(xs))\<close>: the first occurrence of each value, in order.\<close>

fun uniq :: "'a list \<Rightarrow> 'a list" where
  "uniq [] = []"
| "uniq (x # xs) = x # uniq (filter (\<lambda>y. y \<noteq> x) xs)"

definition updateSuggestions :: "Transaction list \<Rightarrow> 'r world \<Rightarrow> 'r world" where
  "updateSuggestions data w =
     w\<lparr>recentSources := take 10 (uniq (map source data)),
       recentDestinations := take 10 (uniq (map destination data))\<rparr>"

text \<open>
  \<^verbatim>\<open>error.status || (error.reponse && error.response.status)\<close>: reading \<^verbatim>\<open>.status\<close> of
  an absent \<^verbatim>\<open>error.response\<close> throws a TypeError (\<open>Inl\<close>).
\<close>

definition status_of :: "js_error \<Rightarrow> js_error + nat option" where
  "status_of error =
     (let other = (if \<not> reponse error then Inr None
                   else case response error of None \<Rightarrow> Inl TypeError | Some st \<Rightarrow> Inr st)
      in case status error of
           Some n \<Rightarrow> if n \<noteq> 0 then Inr (Some n) else other
         | None \<Rightarrow> other)"

text \<open>
  The outer \<^verbatim>\<open>catch\<close> and the \<^verbatim>\<open>finally\<close> of \<open>loadDataAndSettings\<close>. An exception
  thrown by the handler itself leaves the function (\<open>Inl\<close>), after the \<^verbatim>\<open>finally\<close>.
\<close>

definition load_catch ::
  "'r sdk \<Rightarrow> (prompt \<Rightarrow> bool) \<Rightarrow> js_error \<Rightarrow> 'r world \<Rightarrow> (js_error + unit) \<times> 'r world" where
  "load_catch E user error w =
     (case status_of error of
        Inl thrown \<Rightarrow> (Inl thrown, w\<lparr>isLoading := False\<rparr>)
      | Inr st \<Rightarrow>
          if st = Some 401 \<or> st = Some 400 \<or> error_tag error = Some ''invalid_access_token''
          then (Inr (), (handleLogout E user (show_alert AuthExpired w))\<lparr>isLoading := False\<rparr>)
          else (Inr (), (show_alert LoadFailed w)\<lparr>isLoading := False\<rparr>))"

text \<open>The block "Load Transactions" after the existence check.\<close>

definition load_transactions ::
  "'r sdk \<Rightarrow> bool \<Rightarrow> 'r world \<Rightarrow> (js_error + unit) \<times> 'r world" where
  "load_transactions E exists w =
     (if exists then
        (case downloadFile (download_transactions E) ''bookkeeping_data.json'' False w of
           (Inl error, w1) \<Rightarrow> (Inl error, w1)
         | (Inr data, w1) \<Rightarrow>
             (case data of
                Some d \<Rightarrow> (Inr (), updateSuggestions d (w1\<lparr>transactions := d\<rparr>))
              | None \<Rightarrow> (Inr (), w1)))
      else
        (case uploadFile E (TransactionsDoc []) ''bookkeeping_data.json'' False w of
           (Inl error, w1) \<Rightarrow> (Inl error, w1)
         | (Inr _, w1) \<Rightarrow> (Inr (), w1\<lparr>transactions := []\<rparr>)))"

text \<open>The block "Load Settings", with its own \<^verbatim>\<open>try\<close>/\<^verbatim>\<open>catch\<close>.\<close>

definition load_settings :: "'r sdk \<Rightarrow> 'r world \<Rightarrow> 'r world" where
  "load_settings E w =
     (case checkFileExists E ''settings.json'' False w of
        (Inl error, w1) \<Rightarrow> w1\<lparr>settings := DEFAULT_SETTINGS\<rparr>
      | (Inr settingsExists, w1) \<Rightarrow>
          if settingsExists then
            (case loadSettings E w1 of
               (Inl error, w2) \<Rightarrow> w2\<lparr>settings := DEFAULT_SETTINGS\<rparr>
             | (Inr loadedSettings, w2) \<Rightarrow>
                 (case loadedSettings of Some s \<Rightarrow> w2\<lparr>settings := s\<rparr> | None \<Rightarrow> w2))
          else w1\<lparr>settings := DEFAULT_SETTINGS\<rparr>)"

text \<open>
  \<open>loadDataAndSettings\<close> returns \<open>Inr ()\<close> when its promise resolves and \<open>Inl e\<close> when
  it rejects with \<open>e\<close>.
\<close>

definition loadDataAndSettings ::
  "'r sdk \<Rightarrow> (prompt \<Rightarrow> bool) \<Rightarrow> 'r world \<Rightarrow> (js_error + unit) \<times> 'r world" where
  "loadDataAndSettings E user w0 =
     (let w = w0\<lparr>isLoading := True\<rparr>
      in case checkFileExists E ''bookkeeping_data.json'' False w of
           (Inl error, w1) \<Rightarrow>
             (case status_of error of
                Inl thrown \<Rightarrow> load_catch E user thrown w1
              | Inr st \<Rightarrow>
                  if st = Some 401 \<or> st = Some 400
                  then (Inr (), (handleLogout E user (show_alert AuthExpired w1))\<lparr>isLoading := False\<rparr>)
                  else (Inr (), (show_alert CannotCheckFile w1)\<lparr>isLoading := False\<rparr>))
         | (Inr exists, w1) \<Rightarrow>
             (case load_transactions E exists w1 of
                (Inl error, w2) \<Rightarrow> load_catch E user error w2
              | (Inr _, w2) \<Rightarrow> (Inr (), (load_settings E w2)\<lparr>isLoading := False\<rparr>)))"

definition save_error_text :: "js_error \<Rightarrow> string" where
  "save_error_text error =
     (let truthy_text = (\<lambda>t. case t of Some s \<Rightarrow> s \<noteq> [] | None \<Rightarrow> False)
      in if truthy_text (error_summary error) then the (error_summary error)
         else if truthy_text (message error) then the (message error)
         else json error)"

definition handleAddTransaction :: "'r sdk \<Rightarrow> Transaction list \<Rightarrow> 'r world \<Rightarrow> 'r world" where
  "handleAddTransaction E newTransactions w =
     (let update_mode = (editingTransaction w \<noteq> None \<and> length newTransactions = 1);
          updated =
            (if update_mode
             then map (\<lambda>t. if tx_id t = tx_id (hd newTransactions) then hd newTransactions else t)
                    (transactions w)
             else transactions w @ newTransactions);
          w1 = (if update_mode then show_alert EditDone (w\<lparr>editingTransaction := None\<rparr>) else w);
          w2 = updateSuggestions updated (w1\<lparr>transactions := updated\<rparr>)
      in case uploadFile E (TransactionsDoc updated) ''bookkeeping_data.json'' False w2 of
           (Inl error, w3) \<Rightarrow> show_alert (SaveFailed (save_error_text error)) w3
         | (Inr _, w3) \<Rightarrow> w3)"

definition handleEditTransaction :: "Transaction \<Rightarrow> 'r world \<Rightarrow> 'r world" where
  "handleEditTransaction t w = w\<lparr>editingTransaction := Some t\<rparr>"

definition handleDeleteTransaction ::
  "'r sdk \<Rightarrow> (prompt \<Rightarrow> bool) \<Rightarrow> string \<Rightarrow> 'r world \<Rightarrow> 'r world" where
  "handleDeleteTransaction E user ident w =
     (if \<not> user ConfirmDeleteTransaction then w
      else
        (let updated = filter (\<lambda>t. tx_id t \<noteq> ident) (transactions w);
             w1 = w\<lparr>transactions := updated\<rparr>
         in case uploadFile E (TransactionsDoc updated) ''bookkeeping_data.json'' False w1 of
              (Inl error, w2) \<Rightarrow> show_alert DeleteFailed w2
            | (Inr _, w2) \<Rightarrow> w2))"

definition handleSaveSettings :: "'r sdk \<Rightarrow> AppSettings \<Rightarrow> 'r world \<Rightarrow> 'r world" where
  "handleSaveSettings E newSettings w =
     (let w1 = w\<lparr>settings := newSettings\<rparr>
      in case saveSettings E newSettings w1 of
           (Inl error, w2) \<Rightarrow> show_alert SettingsSaveFailed w2
         | (Inr _, w2) \<Rightarrow> w2)"

text \<open>
  The mutations a user performs, in the order of the calls: choosing a transaction to
  edit, leaving edit mode (\<^verbatim>\<open>onCancelEdit\<close>), submitting the form, and asking for a
  deletion with the answer given to its confirmation.
\<close>

datatype event =
    Edit Transaction
  | CancelEdit
  | Submit "Transaction list"
  | Delete string bool

fun handle :: "'r sdk \<Rightarrow> event \<Rightarrow> 'r world \<Rightarrow> 'r world" where
  "handle E (Edit t) w = handleEditTransaction t w"
| "handle E CancelEdit w = w\<lparr>editingTransaction := None\<rparr>"
| "handle E (Submit ts) w = handleAddTransaction E ts w"
| "handle E (Delete ident answer) w = handleDeleteTransaction E (\<lambda>_. answer) ident w"

text \<open>
  The store's operations as the specification words them: \<open>add\<close> appends, \<open>update\<close>
  replaces the transaction of the same id, \<open>remove\<close> filters the id out; a sequence of
  them is a fold over the collection. \<open>calls\<close> reads off a sequence of user events the
  operations it asks of the store: a submission in edit mode with one transaction is
  an update and ends edit mode, any other submission is an add, a confirmed deletion
  is a remove.
\<close>

datatype operation = Add "Transaction list" | Update Transaction | Remove string

fun apply_operation :: "operation \<Rightarrow> Transaction list \<Rightarrow> Transaction list" where
  "apply_operation (Add ts) xs = xs @ ts"
| "apply_operation (Update t) xs = map (\<lambda>x. if tx_id x = tx_id t then t else x) xs"
| "apply_operation (Remove ident) xs = filter (\<lambda>x. tx_id x \<noteq> ident) xs"

fun calls :: "bool \<Rightarrow> event list \<Rightarrow> operation list" where
  "calls editing [] = []"
| "calls editing (Edit t # evs) = calls True evs"
| "calls editing (CancelEdit # evs) = calls False evs"
| "calls editing (Submit ts # evs) =
     (if editing \<and> length ts = 1 then Update (hd ts) # calls False evs
      else Add ts # calls editing evs)"
| "calls editing (Delete ident answer # evs) =
     (if answer then Remove ident # calls editing evs else calls editing evs)"

text \<open>
  What the claims speak of: the session (the client handle, the auth object, the stored
  tokens and the \<open>isAuthenticated\<close> flag), the requests that change the remote store,
  and the test by which \<open>checkFileExists\<close> takes an error for "path not found".
\<close>

definition session :: "'r world \<Rightarrow> Dropbox option \<times> bool \<times> (string \<rightharpoonup> string) \<times> bool" where
  "session w = (this_dbx w, this_auth w, localStorage w, isAuthenticated w)"

fun is_write :: "request \<Rightarrow> bool" where
  "is_write (Upload p d) = True"
| "is_write (MoveV2 a b) = True"
| "is_write (DeleteV2 p) = True"
| "is_write (GetMetadata p) = False"
| "is_write (Download p) = False"
| "is_write TokenRevoke = False"

definition says_not_found :: "js_error \<Rightarrow> bool" where
  "says_not_found error =
     ((case error_tag error of
         Some t \<Rightarrow> if t \<noteq> [] then Some t else path_lookup_tag error
       | None \<Rightarrow> path_lookup_tag error) = Some ''path_not_found''
      \<or> str_includes (json error) ''path_not_found'')"

definition confirmed_absent :: "'r sdk \<Rightarrow> string \<Rightarrow> 'r world \<Rightarrow> bool" where
  "confirmed_absent E path w =
     (case fst (filesGetMetadata E path (outside w)) of
        Inl error \<Rightarrow> says_not_found error
      | Inr _ \<Rightarrow> False)"

text \<open>
  A step that only reads: it sends no request that changes the remote store and leaves
  the transactions, the edit mode, the shown alerts, the session and the active profile
  as they were.
\<close>

definition only_reads :: "'r world \<Rightarrow> 'r world \<Rightarrow> bool" where
  "only_reads w w' =
     (filter is_write (requests w') = filter is_write (requests w)
      \<and> transactions w' = transactions w \<and> editingTransaction w' = editingTransaction w
      \<and> ui w' = ui w \<and> session w' = session w
      \<and> this_currentProfile w' = this_currentProfile w)"

text \<open>
  Concrete surroundings for the closed instances of the theorems: an SDK all of whose
  calls succeed and whose downloads find nothing, a network failure and an HTTP error
  as the SDK throws them, one transaction, and a signed-in application holding it.
\<close>

definition quiet_sdk :: "unit sdk" where
  "quiet_sdk =
     \<lparr>filesGetMetadata = (\<lambda>p r. (Inr (), r)),
      download_transactions = (\<lambda>p r. (Inr None, r)),
      download_settings = (\<lambda>p r. (Inr None, r)),
      download_registry = (\<lambda>p r. (Inr None, r)),
      filesUpload = (\<lambda>p d r. (Inr (), r)),
      filesMoveV2 = (\<lambda>a b r. (Inr (), r)),
      filesDeleteV2 = (\<lambda>p r. (Inr (), r)),
      authTokenRevoke = (\<lambda>r. (Inr (), r))\<rparr>"

definition network_error :: js_error where
  "network_error = Error ''Failed to fetch''"

definition http_error :: "nat \<Rightarrow> js_error" where
  "http_error n =
     \<lparr>status = Some n, reponse = False, response = None, error_tag = None,
      path_lookup_tag = None, error_summary = None, message = None,
      json = ''{name:DropboxResponseError}''\<rparr>"

definition lunch :: Transaction where
  "lunch = \<lparr>tx_id = ''t1'', date = ''2024/05/02'', tx_type = Some EXPENSE, source = ''Cash'',
            destination = ''Food'', amount = 30, summary = ''noodles'', payer = None,
            projectCode = None, invoiceNumber = None\<rparr>"

definition signed_in :: "unit world" where
  "signed_in =
     \<lparr>this_dbx = Some (Dropbox ''token'' None), this_auth = False,
      this_currentProfile = ''Default'',
      localStorage = [''dropbox_token'' \<mapsto> ''token''],
      transactions = [lunch], editingTransaction = None, isAuthenticated = True,
      isLoading = False, settings = DEFAULT_SETTINGS, profiles = [''Default''],
      currentProfile = ''Default'', recentSources = [''Cash''],
      recentDestinations = [''Food''], outside = (), requests = [], ui = []\<rparr>"

definition not_found_error :: js_error where
  "not_found_error =
     \<lparr>status = Some 409, reponse = False, response = None, error_tag = Some ''path_not_found'',
      path_lookup_tag = None, error_summary = Some ''path_not_found/'', message = None,
      json = ''{error:{.tag:path_not_found}}''\<rparr>"


section \<open>Properties of the numbers\<close>

text \<open>
  The exponent search finds the binade of a magnitude; a whole number of magnitude
  below \<open>2^53\<close> is a double, and sums and differences of such numbers that stay
  below \<open>2^53\<close> are exact.
\<close>

lemma exponent_from_le:
  "a < power_int 2 m \<Longrightarrow> - 1022 < m \<Longrightarrow> exponent_from k a < m"
proof (induction k a rule: exponent_from.induct)
  case (1 k a)
  show ?case
  proof (cases "k \<le> - 1022 \<or> power_int 2 k \<le> a")
    case True
    have "k < m"
    proof (rule ccontr)
      assume "\<not> k < m"
      then have mk: "m \<le> k" by simp
      then have "power_int (2::rat) m \<le> power_int 2 k" by (intro power_int_increasing) simp_all
      with 1(2) have lt: "a < power_int 2 k" by (rule less_le_trans)
      from mk 1(3) have "\<not> k \<le> - 1022" by linarith
      with True have "power_int 2 k \<le> a" by blast
      with lt show False by (meson not_le)
    qed
    with True show ?thesis by (subst exponent_from.simps) simp
  next
    case False
    with 1 show ?thesis by (subst exponent_from.simps) simp
  qed
qed

lemma exponent_from_eq:
  "power_int 2 e \<le> a \<Longrightarrow> a < power_int 2 (e + 1) \<Longrightarrow> - 1022 \<le> e \<Longrightarrow> e \<le> k \<Longrightarrow>
     exponent_from k a = e"
proof (induction k a rule: exponent_from.induct)
  case (1 k a)
  show ?case
  proof (cases "k = e")
    case True
    with 1(2) show ?thesis by (subst exponent_from.simps) simp
  next
    case False
    with 1(5) have lt: "e + 1 \<le> k" by simp
    then have "power_int (2::rat) (e + 1) \<le> power_int 2 k" by (intro power_int_increasing) simp_all
    with 1(3) have n: "\<not> power_int 2 k \<le> a" by simp
    from lt 1(4) have n2: "\<not> k \<le> - 1022" by simp
    from n n2 lt 1 show ?thesis by (subst exponent_from.simps) simp
  qed
qed

lemma round_half_even_of_int [simp]: "round_half_even (of_int m) = m"
  by (simp add: round_half_even_def)

lemma fl_whole:
  assumes "\<bar>i\<bar> < 2 ^ 53"
  shows "fl (of_int i) = whole i"
proof (cases "i = 0")
  case True
  then show ?thesis by (simp add: fl_def whole_def)
next
  case False
  let ?r = "of_int i :: rat"
  let ?e = "exponent_from 1023 \<bar>?r\<bar>"
  have "\<bar>?r\<bar> < power_int 2 53"
  proof -
    have "\<bar>?r\<bar> = of_int \<bar>i\<bar>" by simp
    also have "\<dots> < of_int (2 ^ 53)" using assms by (simp only: of_int_less_iff)
    finally show ?thesis by (simp add: power_int_def)
  qed
  then have e: "?e < 53" by (rule exponent_from_le) simp
  define n where "n = nat (52 - ?e)"
  from e have q: "power_int (2::rat) (?e - 52) = 1 / 2 ^ n"
    by (auto simp: power_int_def n_def inverse_eq_divide power_one_over nat_diff_distrib')
  have "?r / power_int 2 (?e - 52) = of_int (i * 2 ^ n)"
    by (simp add: q)
  then have r: "round_half_even (?r / power_int 2 (?e - 52)) = i * 2 ^ n"
    by (simp only: round_half_even_of_int)
  have v: "of_int (i * 2 ^ n) * power_int (2::rat) (?e - 52) = ?r"
    by (simp add: q)
  have small: "\<not> power_int 2 1024 \<le> \<bar>?r\<bar>"
  proof -
    have "power_int (2::rat) 53 \<le> power_int 2 1024" by (intro power_int_increasing) simp_all
    with \<open>\<bar>?r\<bar> < power_int 2 53\<close> show ?thesis by simp
  qed
  from False show ?thesis
    unfolding fl_def Let_def r v whole_def using small by simp
qed

lemma array_index_examples:
  "array_index ''10'' = Some 10 \<and> array_index ''010'' = None \<and> array_index ''4294967295'' = None
  \<and> array_index ''4294967294'' = Some 4294967294 \<and> array_index ''Cash'' = None"
  by (simp add: array_index_def)

lemma Object_values_order:
  "Object_values [(''b'', 1::nat), (''10'', 2), (''a'', 3), (''2'', 4)] = [4, 2, 1, 3]"
  by (simp add: Object_values_def own_entries_def array_index_def)

lemma js_add_whole:
  "\<bar>a + b\<bar> < 2 ^ 53 \<Longrightarrow> js_add (whole a) (whole b) = whole (a + b)"
  using fl_whole [of "a + b"] by (simp add: whole_def)

lemma js_sub_whole:
  "\<bar>a - b\<bar> < 2 ^ 53 \<Longrightarrow> js_sub (whole a) (whole b) = whole (a - b)"
  using fl_whole [of "a - b"] by (simp add: whole_def js_sub_def)

lemma to_number_whole: "\<bar>n\<bar> < 2 ^ 53 \<Longrightarrow> to_number n = whole n"
  by (simp add: to_number_def fl_whole)

lemma or_zero_whole [simp]: "or_zero (Some (Num (whole i))) = Num (whole i)"
  by (simp add: or_zero_def whole_def)

lemma or_zero_None [simp]: "or_zero None = Num (whole 0)"
  by (simp add: or_zero_def whole_def)

lemma plain_not_proto: "k \<notin> set Object_prototype \<Longrightarrow> k \<noteq> ''__proto__''"
  by (auto simp: Object_prototype_def)

lemma property_plain: "k \<notin> set Object_prototype \<Longrightarrow> property own k = own k"
  by (simp add: property_def split: option.splits)

lemma map_of_assign:
  "k \<noteq> ''__proto__'' \<Longrightarrow> map_of (assign k' v b) k = (if k' = k then Some v else map_of b k)"
  by (simp add: assign_def update_conv')

lemma fl_normal:
  assumes "power_int 2 e \<le> \<bar>r\<bar>" and "\<bar>r\<bar> < power_int 2 (e + 1)" and "- 1022 \<le> e" and "e \<le> 1023"
  shows "fl r =
     (if power_int 2 1024 \<le> \<bar>rat_of_int (round_half_even (r / power_int 2 (e - 52))) * power_int 2 (e - 52)\<bar>
      then (if 0 < r then PosInf else NegInf)
      else Finite (of_int (round_half_even (r / power_int 2 (e - 52))) * power_int 2 (e - 52)))"
proof -
  have "0 < power_int (2::rat) e" by simp
  then have "0 < \<bar>r\<bar>" using assms(1) by (rule less_le_trans)
  then have "r \<noteq> 0" by simp
  moreover have "exponent_from 1023 \<bar>r\<bar> = e"
    using assms by (intro exponent_from_eq)
  ultimately show ?thesis by (simp add: fl_def Let_def)
qed

lemma floor_halves:
  "\<lfloor>(9007199254740992::rat) / 2\<rfloor> = 4503599627370496"
  "\<lfloor>(9007199254740993::rat) / 2\<rfloor> = 4503599627370496"
  "\<lfloor>(9007199254740994::rat) / 2\<rfloor> = 4503599627370497"
  by (simp_all add: floor_eq_iff)

lemma fl_two_53: "fl 9007199254740992 = Finite 9007199254740992"
  using fl_normal [of 53 9007199254740992]
  by (simp add: round_half_even_def power_int_def Let_def floor_halves)

lemma fl_two_53_plus_1: "fl 9007199254740993 = Finite 9007199254740992"
  using fl_normal [of 53 9007199254740993]
  by (simp add: round_half_even_def power_int_def Let_def floor_halves)

lemma fl_two_53_plus_2: "fl 9007199254740994 = Finite 9007199254740994"
  using fl_normal [of 53 9007199254740994]
  by (simp add: round_half_even_def power_int_def Let_def floor_halves)

section \<open>Properties of the balance engine\<close>

lemma map_of_assign_all:
  "map_of (assign k' v b) k = (if k' = k \<and> k \<noteq> ''__proto__'' then Some v else map_of b k)"
  by (auto simp: assign_def update_conv')

lemma distinct_assign:
  "distinct (map fst b) \<Longrightarrow> distinct (map fst (assign k v b))"
  by (simp add: assign_def distinct_update)

lemma or_zero_idem [simp]: "or_zero (Some (or_zero v)) = or_zero v"
  by (cases v; simp add: or_zero_def) 

lemma tx_type_cases:
  obtains "tx_type t = None" | "tx_type t = Some EXPENSE"
        | "tx_type t = Some INCOME" | "tx_type t = Some TRANSFER"
  by (cases "tx_type t") (auto intro: TransactionType.exhaust)

lemma map_of_init_accounts:
  "map_of (fold (init_account m) accs b) k =
     (if k \<in> set accs \<and> k \<noteq> ''__proto__''
      then Some (or_zero (property (map_option Num \<circ> m) k)) else map_of b k)"
  by (induction accs arbitrary: b) (auto simp: init_account_def map_of_assign_all)

lemma distinct_init_accounts:
  "distinct (map fst b) \<Longrightarrow> distinct (map fst (fold (init_account m) accs b))"
  by (induction accs arbitrary: b) (simp_all add: init_account_def distinct_assign)

lemma balances_decrease:
  "map_of (balances (decrease s a w)) k =
     (if s = k \<and> k \<noteq> [] \<and> k \<noteq> ''__proto__''
      then Some (minus_val (or_zero (property (map_of (balances w)) k)) (Num a))
      else map_of (balances w) k)"
  by (auto simp: decrease_def map_of_assign_all)

lemma balances_increase:
  "map_of (balances (increase s a w)) k =
     (if s = k \<and> k \<noteq> [] \<and> k \<noteq> ''__proto__''
      then Some (plus_val (or_zero (property (map_of (balances w)) k)) (Num a))
      else map_of (balances w) k)"
  by (auto simp: increase_def map_of_assign_all)

lemma distinct_decrease:
  "distinct (map fst (balances w)) \<Longrightarrow> distinct (map fst (balances (decrease k a w)))"
  by (simp add: decrease_def distinct_assign)

lemma distinct_increase:
  "distinct (map fst (balances w)) \<Longrightarrow> distinct (map fst (balances (increase k a w)))"
  by (simp add: increase_def distinct_assign)

lemma monthly_decrease [simp]:
  "monthlyIncome (decrease k a w) = monthlyIncome w"
  "monthlyExpense (decrease k a w) = monthlyExpense w"
  by (simp_all add: decrease_def)

lemma monthly_increase [simp]:
  "monthlyIncome (increase k a w) = monthlyIncome w"
  "monthlyExpense (increase k a w) = monthlyExpense w"
  by (simp_all add: increase_def)

lemma abs_spec_effect: "\<bar>spec_effect t k\<bar> \<le> \<bar>amount t\<bar>"
  by (cases t rule: tx_type_cases) (auto simp: spec_effect_def)

text \<open>One key, whole numbers: a decrease and an increase are exact.\<close>

lemma decrease_whole:
  assumes "k \<notin> set Object_prototype" and "k \<noteq> []"
    and "or_zero (map_of (balances w) k) = Num (whole x)" and "\<bar>x - a\<bar> < 2 ^ 53"
  shows "or_zero (map_of (balances (decrease s (whole a) w)) k) =
           Num (whole (if s = k then x - a else x))"
  using assms
  by (simp add: balances_decrease plain_not_proto property_plain js_sub_whole)

lemma increase_whole:
  assumes "k \<notin> set Object_prototype" and "k \<noteq> []"
    and "or_zero (map_of (balances w) k) = Num (whole x)" and "\<bar>x + a\<bar> < 2 ^ 53"
  shows "or_zero (map_of (balances (increase s (whole a) w)) k) =
           Num (whole (if s = k then x + a else x))"
  using assms
  by (simp add: balances_increase plain_not_proto property_plain js_add_whole)

lemma step_whole:
  assumes k: "k \<notin> set Object_prototype" "k \<noteq> []"
    and x: "or_zero (map_of (balances w) k) = Num (whole x)"
    and b: "\<bar>x\<bar> + \<bar>amount t\<bar> < 2 ^ 53"
  shows "or_zero (map_of (balances (stats_step cm t w)) k) = Num (whole (x + spec_effect t k))"
proof -
  from b have n: "to_number (amount t) = whole (amount t)"
    by (intro to_number_whole) linarith
  from b have m: "\<bar>x - amount t\<bar> < 2 ^ 53" and p: "\<bar>x + amount t\<bar> < 2 ^ 53" and x0: "\<bar>x\<bar> < 2 ^ 53"
    by linarith+
  note d = decrease_whole [OF k x m, of "source t"]
  note i = increase_whole [OF k x p, of "destination t"]
  show ?thesis
  proof (cases t rule: tx_type_cases)
    case 1
    then show ?thesis using d
      by (cases "source t = k") (simp_all add: stats_step_def Let_def n spec_effect_def)
  next
    case 2
    then show ?thesis using d
      by (cases "source t = k") (simp_all add: stats_step_def Let_def n spec_effect_def)
  next
    case 3
    then show ?thesis using i
      by (cases "destination t = k") (simp_all add: stats_step_def Let_def n spec_effect_def)
  next
    case 4
    have "or_zero (map_of (balances (increase (destination t) (whole (amount t))
              (decrease (source t) (whole (amount t)) w))) k) =
          Num (whole (if destination t = k
                      then (if source t = k then x - amount t else x) + amount t
                      else (if source t = k then x - amount t else x)))"
      by (rule increase_whole [OF k d]) (use p x0 in auto)
    with 4 show ?thesis
      by (cases "source t = k"; cases "destination t = k")
         (simp_all add: stats_step_def Let_def n spec_effect_def)
  qed
qed

lemma walk_whole:
  assumes "k \<notin> set Object_prototype" and "k \<noteq> []"
  shows "or_zero (map_of (balances w) k) = Num (whole x) \<Longrightarrow>
         \<bar>x\<bar> + (\<Sum>t\<leftarrow>ts. \<bar>amount t\<bar>) < 2 ^ 53 \<Longrightarrow>
         or_zero (map_of (balances (fold (stats_step cm) ts w)) k) =
           Num (whole (x + (\<Sum>t\<leftarrow>ts. spec_effect t k)))"
proof (induction ts arbitrary: w x)
  case Nil
  then show ?case by simp
next
  case (Cons t ts)
  have nn: "0 \<le> (\<Sum>t\<leftarrow>ts. \<bar>amount t\<bar>)" by (rule sum_list_nonneg) auto
  from Cons.prems(2) nn have b: "\<bar>x\<bar> + \<bar>amount t\<bar> < 2 ^ 53" by simp
  note s = step_whole [OF assms Cons.prems(1) b, of cm]
  have "\<bar>x + spec_effect t k\<bar> \<le> \<bar>x\<bar> + \<bar>amount t\<bar>"
    using abs_spec_effect [of t k] by linarith
  with Cons.prems(2) have b2: "\<bar>x + spec_effect t k\<bar> + (\<Sum>t\<leftarrow>ts. \<bar>amount t\<bar>) < 2 ^ 53" by simp
  from Cons.IH [OF s b2] show ?case by (simp add: add.assoc)
qed

lemma stats_balances:
  "balances (Dashboard_stats cm ts accounts ib) =
     balances (fold (stats_step cm) ts
       \<lparr>balances = fold (init_account (case ib of None \<Rightarrow> Map.empty | Some m \<Rightarrow> m)) accounts [],
        monthlyIncome = Finite 0, monthlyExpense = Finite 0\<rparr>)"
  by (simp add: Dashboard_stats_def Let_def)

lemma initial_value:
  "k \<notin> set Object_prototype \<Longrightarrow>
   or_zero (map_of (fold (init_account (case ib of None \<Rightarrow> Map.empty | Some m \<Rightarrow> m)) accounts []) k) =
     spec_initial accounts ib k"
  by (auto simp: map_of_init_accounts spec_initial_def property_plain plain_not_proto
      or_zero_def whole_def split: option.splits)

lemma stats_value:
  assumes "acc \<noteq> []" and "acc \<notin> set Object_prototype"
    and "spec_initial accounts ib acc = Num (whole i)"
    and "\<bar>i\<bar> + (\<Sum>t\<leftarrow>ts. \<bar>amount t\<bar>) < 2 ^ 53"
  shows "or_zero (property (map_of (balances (Dashboard_stats cm ts accounts ib))) acc) =
           Num (whole (i + (\<Sum>t\<leftarrow>ts. spec_effect t acc)))"
  unfolding stats_balances property_plain [OF assms(2)]
  by (rule walk_whole [OF assms(2) assms(1) _ assms(4)]) (simp add: initial_value assms(2,3))

lemma fl_small:
  "fl 0 = Finite 0" "fl 1 = Finite 1" "fl 2 = Finite 2" "fl 30 = Finite 30" "fl 40 = Finite 40"
  "fl 70 = Finite 70" "fl 100 = Finite 100" "fl 500 = Finite 500" "fl 540 = Finite 540"
  "fl (- 30) = Finite (- 30)" "fl (- 40) = Finite (- 40)" "fl 60 = Finite 60"
  using fl_whole [of 0] fl_whole [of 1] fl_whole [of 2] fl_whole [of 30] fl_whole [of 40]
    fl_whole [of 70] fl_whole [of 100] fl_whole [of 500] fl_whole [of 540]
    fl_whole [of "- 30"] fl_whole [of "- 40"] fl_whole [of 60]
  by (simp_all add: whole_def)

lemma array_index_letters [simp]:
  "array_index ''Cash'' = None" "array_index ''Bank'' = None" "array_index ''constructor'' = None"
  by (simp_all add: array_index_def)

text \<open>
  C5, as amended. Take an account whose name is not empty and does not name a member
  of \<^verbatim>\<open>Object.prototype\<close>, whose start (its initial balance if it is listed in
  \<open>accounts\<close>, 0 if absent) is a whole number \<open>i\<close>, and transactions of whole amounts
  with \<open>\<bar>i\<bar>\<close> plus the sum of the magnitudes of the amounts below \<open>2^53\<close>. Then the
  balance the walk leaves for the account is \<open>i\<close> plus, over the transactions in
  order, minus the amount for an \<^verbatim>\<open>EXPENSE\<close> (or a transaction with no type) whose
  source it is, plus the amount for an \<^verbatim>\<open>INCOME\<close> whose destination it is, and both
  for a \<^verbatim>\<open>TRANSFER\<close>. \<^verbatim>\<open>totalAssets\<close> is the sum of the values of \<^verbatim>\<open>balances\<close>
  from 0, in the order of \<^verbatim>\<open>Object.values\<close>. For the accounts \<^verbatim>\<open>['Cash']\<close> with initial
  balance 100 and the single \<^verbatim>\<open>EXPENSE\<close> of 30 from Cash to Food, \<^verbatim>\<open>balances.Cash\<close>
  is 70 and \<^verbatim>\<open>totalAssets\<close> is 70.
\<close>

theorem stats_balances_walk:
  "(acc \<noteq> [] \<and> acc \<notin> set Object_prototype \<and> spec_initial accounts ib acc = Num (whole i)
      \<and> \<bar>i\<bar> + (\<Sum>t\<leftarrow>ts. \<bar>amount t\<bar>) < 2 ^ 53 \<longrightarrow>
      or_zero (property (map_of (balances (Dashboard_stats cm ts accounts ib))) acc) =
        Num (whole (i + (\<Sum>t\<leftarrow>ts. spec_effect t acc))))
   \<and> totalAssets (Dashboard_stats cm ts accounts ib) =
        foldl plus_val (Num (Finite 0)) (Object_values (balances (Dashboard_stats cm ts accounts ib)))
   \<and> (let cash = \<lparr>tx_id = ident, date = d, tx_type = Some EXPENSE, source = ''Cash'',
                   destination = ''Food'', amount = 30, summary = s, payer = p,
                   projectCode = pc, invoiceNumber = ivn\<rparr>;
           st = Dashboard_stats cm [cash] [''Cash''] (Some [''Cash'' \<mapsto> whole 100])
       in map_of (balances st) ''Cash'' = Some (Num (whole 70)) \<and> totalAssets st = Num (whole 70))"
proof -
  have one: "acc \<noteq> [] \<and> acc \<notin> set Object_prototype \<and> spec_initial accounts ib acc = Num (whole i)
      \<and> \<bar>i\<bar> + (\<Sum>t\<leftarrow>ts. \<bar>amount t\<bar>) < 2 ^ 53 \<longrightarrow>
      or_zero (property (map_of (balances (Dashboard_stats cm ts accounts ib))) acc) =
        Num (whole (i + (\<Sum>t\<leftarrow>ts. spec_effect t acc)))"
    using stats_value [of acc accounts ib i ts cm] by blast
  have two: "totalAssets (Dashboard_stats cm ts accounts ib) =
        foldl plus_val (Num (Finite 0)) (Object_values (balances (Dashboard_stats cm ts accounts ib)))"
    by (simp add: Dashboard_stats_def Let_def)
  have three: "let cash = \<lparr>tx_id = ident, date = d, tx_type = Some EXPENSE, source = ''Cash'',
                   destination = ''Food'', amount = 30, summary = s, payer = p,
                   projectCode = pc, invoiceNumber = ivn\<rparr>;
           st = Dashboard_stats cm [cash] [''Cash''] (Some [''Cash'' \<mapsto> whole 100])
       in map_of (balances st) ''Cash'' = Some (Num (whole 70)) \<and> totalAssets st = Num (whole 70)"
    by (simp add: Dashboard_stats_def Let_def stats_step_def decrease_def init_account_def
        assign_def property_def or_zero_def whole_def to_number_def js_sub_def fl_small
        Object_values_def own_entries_def)
  from one two three show ?thesis by blast
qed

text \<open>
  C5 as stated fails outside these bounds. An \<^verbatim>\<open>EXPENSE\<close> of 30 whose source is an
  account named \<^verbatim>\<open>constructor\<close>, which has no initial balance and so starts at 0,
  leaves \<^verbatim>\<open>NaN\<close> as the balance of the account, not \<open>-30\<close>, and \<^verbatim>\<open>NaN\<close> as
  \<^verbatim>\<open>totalAssets\<close>: \<^verbatim>\<open>balances['constructor'] || 0\<close> is the inherited function. Two
  \<^verbatim>\<open>INCOME\<close> transactions of \<open>2^53\<close> and 1 to Cash leave \<open>2^53\<close>, not \<open>2^53 + 1\<close>: the
  second addition is rounded.
\<close>

theorem stats_balances_walk_counterexample:
  "map_of (balances (Dashboard_stats ''2024-05''
      [\<lparr>tx_id = ''a'', date = ''2024/05/02'', tx_type = Some EXPENSE, source = ''constructor'',
        destination = ''Food'', amount = 30, summary = [], payer = None,
        projectCode = None, invoiceNumber = None\<rparr>] [] None)) ''constructor'' = Some (Num NaN)
   \<and> totalAssets (Dashboard_stats ''2024-05''
      [\<lparr>tx_id = ''a'', date = ''2024/05/02'', tx_type = Some EXPENSE, source = ''constructor'',
        destination = ''Food'', amount = 30, summary = [], payer = None,
        projectCode = None, invoiceNumber = None\<rparr>] [] None) = Num NaN
   \<and> map_of (balances (Dashboard_stats ''2024-05''
      [\<lparr>tx_id = ''a'', date = ''2024/05/02'', tx_type = Some INCOME, source = ''Salary'',
        destination = ''Cash'', amount = 9007199254740992, summary = [], payer = None,
        projectCode = None, invoiceNumber = None\<rparr>,
       \<lparr>tx_id = ''b'', date = ''2024/05/03'', tx_type = Some INCOME, source = ''Salary'',
        destination = ''Cash'', amount = 1, summary = [], payer = None,
        projectCode = None, invoiceNumber = None\<rparr>] [] None)) ''Cash''
       = Some (Num (Finite 9007199254740992))"
  by (simp add: Dashboard_stats_def Let_def stats_step_def decrease_def increase_def
      assign_def property_def Object_prototype_def or_zero_def to_number_def js_sub_def
      fl_small fl_two_53 fl_two_53_plus_1 Object_values_def own_entries_def)

text \<open>
  C5, as amended, at the account Bank after a transfer of 40 from Cash and an income of
  500: it starts at 0 and ends at 540.
\<close>

theorem stats_balances_walk_witness:
  "or_zero (property (map_of (balances (Dashboard_stats ''2024-05''
      [\<lparr>tx_id = ''a'', date = ''2024/05/02'', tx_type = Some TRANSFER, source = ''Cash'',
        destination = ''Bank'', amount = 40, summary = [], payer = None,
        projectCode = None, invoiceNumber = None\<rparr>,
       \<lparr>tx_id = ''b'', date = ''2024/05/03'', tx_type = Some INCOME, source = ''Salary'',
        destination = ''Bank'', amount = 500, summary = [], payer = None,
        projectCode = None, invoiceNumber = None\<rparr>]
      [''Cash'', ''Bank''] (Some [''Cash'' \<mapsto> whole 100])))) ''Bank'') = Num (whole 540)"
proof -
  have h: "''Bank'' \<noteq> [] \<and> ''Bank'' \<notin> set Object_prototype
      \<and> spec_initial [''Cash'', ''Bank''] (Some [''Cash'' \<mapsto> whole 100]) ''Bank'' = Num (whole 0)
      \<and> \<bar>0::int\<bar> + (\<Sum>t\<leftarrow>[\<lparr>tx_id = ''a'', date = ''2024/05/02'', tx_type = Some TRANSFER,
              source = ''Cash'', destination = ''Bank'', amount = 40, summary = [], payer = None,
              projectCode = None, invoiceNumber = None\<rparr>,
             \<lparr>tx_id = ''b'', date = ''2024/05/03'', tx_type = Some INCOME, source = ''Salary'',
              destination = ''Bank'', amount = 500, summary = [], payer = None,
              projectCode = None, invoiceNumber = None\<rparr>]. \<bar>amount t\<bar>) < 2 ^ 53"
    by (simp add: Object_prototype_def spec_initial_def or_zero_def whole_def)
  from stats_balances_walk [THEN conjunct1, rule_format, OF h, of "''2024-05''"]
  show ?thesis by (simp add: spec_effect_def)
qed

text \<open>
  The whole walk, for all keys at once: on plain keys and whole values within the
  bound, the balances after the walk are the whole numbers of the closed form.
\<close>

lemma or_zero_whole_map:
  "\<forall>k. k \<notin> K \<longrightarrow> I k = 0 \<Longrightarrow> or_zero (whole_map K I k) = Num (whole (I k))"
  by (simp add: whole_map_def)

lemma whole_map_cong:
  "K = K' \<Longrightarrow> (\<And>k. I k = I' k) \<Longrightarrow> whole_map K I = whole_map K' I'"
  by (simp add: whole_map_def fun_eq_iff)

lemma decrease_abs:
  assumes m: "map_of (balances w) = whole_map K I" and z: "\<forall>k. k \<notin> K \<longrightarrow> I k = 0"
    and p: "s = [] \<or> s \<notin> set Object_prototype" and b: "\<bar>I s - a\<bar> < 2 ^ 53"
  shows "map_of (balances (decrease s (whole a) w)) =
           whole_map (K \<union> ({s} - {[]})) (\<lambda>k. if k = s \<and> s \<noteq> [] then I k - a else I k)"
proof
  fix k
  show "map_of (balances (decrease s (whole a) w)) k =
           whole_map (K \<union> ({s} - {[]})) (\<lambda>k. if k = s \<and> s \<noteq> [] then I k - a else I k) k"
  proof (cases "s = k \<and> k \<noteq> []")
    case True
    with p have plain: "k \<notin> set Object_prototype" by simp
    from True b have "js_sub (whole (I k)) (whole a) = whole (I k - a)"
      by (intro js_sub_whole) simp
    with True plain show ?thesis
      by (simp add: balances_decrease plain_not_proto property_plain m or_zero_whole_map [OF z])
         (simp add: whole_map_def)
  next
    case False
    then show ?thesis
      by (auto simp: balances_decrease m whole_map_def)
  qed
qed

lemma increase_abs:
  assumes m: "map_of (balances w) = whole_map K I" and z: "\<forall>k. k \<notin> K \<longrightarrow> I k = 0"
    and p: "s = [] \<or> s \<notin> set Object_prototype" and b: "\<bar>I s + a\<bar> < 2 ^ 53"
  shows "map_of (balances (increase s (whole a) w)) =
           whole_map (K \<union> ({s} - {[]})) (\<lambda>k. if k = s \<and> s \<noteq> [] then I k + a else I k)"
proof
  fix k
  show "map_of (balances (increase s (whole a) w)) k =
           whole_map (K \<union> ({s} - {[]})) (\<lambda>k. if k = s \<and> s \<noteq> [] then I k + a else I k) k"
  proof (cases "s = k \<and> k \<noteq> []")
    case True
    with p have plain: "k \<notin> set Object_prototype" by simp
    from True b have "js_add (whole (I k)) (whole a) = whole (I k + a)"
      by (intro js_add_whole) simp
    with True plain show ?thesis
      by (simp add: balances_increase plain_not_proto property_plain m or_zero_whole_map [OF z])
         (simp add: whole_map_def)
  next
    case False
    then show ?thesis
      by (auto simp: balances_increase m whole_map_def)
  qed
qed

lemma stats_step_abs:
  assumes m: "map_of (balances w) = whole_map K I" and z: "\<forall>k. k \<notin> K \<longrightarrow> I k = 0"
    and p: "touched t \<inter> set Object_prototype = {}"
    and b: "\<forall>k. \<bar>I k\<bar> + \<bar>amount t\<bar> < 2 ^ 53"
  shows "map_of (balances (stats_step cm t w)) =
           whole_map (K \<union> touched t) (\<lambda>k. I k + (if k = [] then 0 else spec_effect t k))"
proof -
  have n: "to_number (amount t) = whole (amount t)"
    using b [rule_format, of "[]"] by (intro to_number_whole) linarith
  have bm: "\<bar>I k - amount t\<bar> < 2 ^ 53" and bp: "\<bar>I k + amount t\<bar> < 2 ^ 53"
    and b0: "\<bar>I k\<bar> < 2 ^ 53" for k
    using b [rule_format, of k] by linarith+
  show ?thesis
  proof (cases t rule: tx_type_cases)
    case 1
    with p have ps: "source t = [] \<or> source t \<notin> set Object_prototype" by (auto simp: touched_def)
    from 1 show ?thesis
      using decrease_abs [OF m z ps bm]
      by (simp add: stats_step_def Let_def n touched_def)
         (rule whole_map_cong; auto simp: spec_effect_def)
  next
    case 2
    with p have ps: "source t = [] \<or> source t \<notin> set Object_prototype" by (auto simp: touched_def)
    from 2 show ?thesis
      using decrease_abs [OF m z ps bm]
      by (simp add: stats_step_def Let_def n touched_def)
         (rule whole_map_cong; auto simp: spec_effect_def)
  next
    case 3
    with p have ps: "destination t = [] \<or> destination t \<notin> set Object_prototype"
      by (auto simp: touched_def)
    from 3 show ?thesis
      using increase_abs [OF m z ps bp]
      by (simp add: stats_step_def Let_def n touched_def)
         (rule whole_map_cong; auto simp: spec_effect_def)
  next
    case 4
    with p have ps: "source t = [] \<or> source t \<notin> set Object_prototype"
      and pd: "destination t = [] \<or> destination t \<notin> set Object_prototype"
      by (auto simp: touched_def)
    let ?K1 = "K \<union> ({source t} - {[]})"
    let ?I1 = "\<lambda>k. if k = source t \<and> source t \<noteq> [] then I k - amount t else I k"
    note d = decrease_abs [OF m z ps bm]
    have z1: "\<forall>k. k \<notin> ?K1 \<longrightarrow> ?I1 k = 0" using z by auto
    have b1: "\<bar>?I1 (destination t) + amount t\<bar> < 2 ^ 53"
      using bp [of "destination t"] b0 [of "destination t"] by auto
    note i = increase_abs [OF d z1 pd b1]
    from 4 show ?thesis
      using i
      by (simp add: stats_step_def Let_def n touched_def)
         (rule whole_map_cong; auto simp: spec_effect_def)
  qed
qed

lemma walk_abs:
  "map_of (balances w) = whole_map K I \<Longrightarrow> \<forall>k. k \<notin> K \<longrightarrow> I k = 0 \<Longrightarrow>
   \<forall>t\<in>set ts. touched t \<inter> set Object_prototype = {} \<Longrightarrow>
   \<forall>k. \<bar>I k\<bar> + (\<Sum>t\<leftarrow>ts. \<bar>amount t\<bar>) < 2 ^ 53 \<Longrightarrow>
   map_of (balances (fold (stats_step cm) ts w)) =
     whole_map (K \<union> (\<Union>t\<in>set ts. touched t))
       (\<lambda>k. I k + (if k = [] then 0 else (\<Sum>t\<leftarrow>ts. spec_effect t k)))"
proof (induction ts arbitrary: w K I)
  case Nil
  then show ?case by simp (rule whole_map_cong; simp)
next
  case (Cons t ts)
  let ?I1 = "\<lambda>k. I k + (if k = [] then 0 else spec_effect t k)"
  have nn: "0 \<le> (\<Sum>t\<leftarrow>ts. \<bar>amount t\<bar>)" by (rule sum_list_nonneg) auto
  have bt: "\<forall>k. \<bar>I k\<bar> + \<bar>amount t\<bar> < 2 ^ 53"
  proof
    fix k
    from Cons.prems(4) [rule_format, of k] nn show "\<bar>I k\<bar> + \<bar>amount t\<bar> < 2 ^ 53" by simp
  qed
  have pt: "touched t \<inter> set Object_prototype = {}" using Cons.prems(3) by simp
  note s = stats_step_abs [OF Cons.prems(1,2) pt bt, of cm]
  have z1: "\<forall>k. k \<notin> K \<union> touched t \<longrightarrow> ?I1 k = 0"
    using Cons.prems(2)
    by (cases t rule: tx_type_cases) (auto simp: touched_def spec_effect_def)
  have p1: "\<forall>t\<in>set ts. touched t \<inter> set Object_prototype = {}" using Cons.prems(3) by simp
  have b1: "\<forall>k. \<bar>?I1 k\<bar> + (\<Sum>t\<leftarrow>ts. \<bar>amount t\<bar>) < 2 ^ 53"
  proof
    fix k
    have "\<bar>?I1 k\<bar> \<le> \<bar>I k\<bar> + \<bar>amount t\<bar>"
      using abs_spec_effect [of t k] by (simp split: if_splits) linarith
    with Cons.prems(4) [rule_format, of k] show "\<bar>?I1 k\<bar> + (\<Sum>t\<leftarrow>ts. \<bar>amount t\<bar>) < 2 ^ 53"
      by simp
  qed
  from Cons.IH [OF s z1 p1 b1] show ?case
    by simp (rule whole_map_cong; auto)
qed

lemma step_income:
  "monthlyIncome w = whole x \<Longrightarrow> \<bar>x\<bar> + \<bar>amount t\<bar> < 2 ^ 53 \<Longrightarrow>
     monthlyIncome (stats_step cm t w) = whole (x + month_income cm t)"
proof -
  assume x: "monthlyIncome w = whole x" and b: "\<bar>x\<bar> + \<bar>amount t\<bar> < 2 ^ 53"
  then have n: "to_number (amount t) = whole (amount t)" by (intro to_number_whole) linarith
  from b have "js_add (whole x) (whole (amount t)) = whole (x + amount t)"
    by (intro js_add_whole) linarith
  with x n show ?thesis
    by (cases t rule: tx_type_cases) (simp_all add: stats_step_def Let_def month_income_def)
qed

lemma step_expense:
  "monthlyExpense w = whole x \<Longrightarrow> \<bar>x\<bar> + \<bar>amount t\<bar> < 2 ^ 53 \<Longrightarrow>
     monthlyExpense (stats_step cm t w) = whole (x + month_expense cm t)"
proof -
  assume x: "monthlyExpense w = whole x" and b: "\<bar>x\<bar> + \<bar>amount t\<bar> < 2 ^ 53"
  then have n: "to_number (amount t) = whole (amount t)" by (intro to_number_whole) linarith
  from b have "js_add (whole x) (whole (amount t)) = whole (x + amount t)"
    by (intro js_add_whole) linarith
  with x n show ?thesis
    by (cases t rule: tx_type_cases) (simp_all add: stats_step_def Let_def month_expense_def)
qed

lemma walk_income:
  "monthlyIncome w = whole x \<Longrightarrow> \<bar>x\<bar> + (\<Sum>t\<leftarrow>ts. \<bar>amount t\<bar>) < 2 ^ 53 \<Longrightarrow>
     monthlyIncome (fold (stats_step cm) ts w) = whole (x + (\<Sum>t\<leftarrow>ts. month_income cm t))"
proof (induction ts arbitrary: w x)
  case Nil
  then show ?case by simp
next
  case (Cons t ts)
  have nn: "0 \<le> (\<Sum>t\<leftarrow>ts. \<bar>amount t\<bar>)" by (rule sum_list_nonneg) auto
  from Cons.prems(2) nn have b: "\<bar>x\<bar> + \<bar>amount t\<bar> < 2 ^ 53" by simp
  have "\<bar>month_income cm t\<bar> \<le> \<bar>amount t\<bar>" by (simp add: month_income_def)
  with Cons.prems(2) have b2: "\<bar>x + month_income cm t\<bar> + (\<Sum>t\<leftarrow>ts. \<bar>amount t\<bar>) < 2 ^ 53"
    by simp
  from Cons.IH [OF step_income [OF Cons.prems(1) b] b2] show ?case by (simp add: add.assoc)
qed

lemma walk_expense:
  "monthlyExpense w = whole x \<Longrightarrow> \<bar>x\<bar> + (\<Sum>t\<leftarrow>ts. \<bar>amount t\<bar>) < 2 ^ 53 \<Longrightarrow>
     monthlyExpense (fold (stats_step cm) ts w) = whole (x + (\<Sum>t\<leftarrow>ts. month_expense cm t))"
proof (induction ts arbitrary: w x)
  case Nil
  then show ?case by simp
next
  case (Cons t ts)
  have nn: "0 \<le> (\<Sum>t\<leftarrow>ts. \<bar>amount t\<bar>)" by (rule sum_list_nonneg) auto
  from Cons.prems(2) nn have b: "\<bar>x\<bar> + \<bar>amount t\<bar> < 2 ^ 53" by simp
  have "\<bar>month_expense cm t\<bar> \<le> \<bar>amount t\<bar>" by (simp add: month_expense_def)
  with Cons.prems(2) have b2: "\<bar>x + month_expense cm t\<bar> + (\<Sum>t\<leftarrow>ts. \<bar>amount t\<bar>) < 2 ^ 53"
    by simp
  from Cons.IH [OF step_expense [OF Cons.prems(1) b] b2] show ?case by (simp add: add.assoc)
qed

lemma step_distinct:
  "distinct (map fst (balances w)) \<Longrightarrow> distinct (map fst (balances (stats_step cm t w)))"
  by (cases t rule: tx_type_cases)
     (auto simp: stats_step_def Let_def distinct_decrease distinct_increase)

lemma walk_distinct:
  "distinct (map fst (balances w)) \<Longrightarrow> distinct (map fst (balances (fold (stats_step cm) ts w)))"
  by (induction ts arbitrary: w) (simp_all add: step_distinct)

lemma stats_distinct:
  "distinct (map fst (balances (Dashboard_stats cm ts accounts ib)))"
  unfolding stats_balances
  by (rule walk_distinct) (simp add: distinct_init_accounts)

lemma foldl_plus_whole:
  "\<bar>s\<bar> + (\<Sum>j\<leftarrow>js. \<bar>j\<bar>) < 2 ^ 53 \<Longrightarrow>
     foldl plus_val (Num (whole s)) (map (\<lambda>j. Num (whole j)) js) = Num (whole (s + sum_list js))"
proof (induction js arbitrary: s)
  case Nil
  then show ?case by simp
next
  case (Cons j js)
  have nn: "0 \<le> (\<Sum>j\<leftarrow>js. \<bar>j\<bar>)" by (rule sum_list_nonneg) auto
  from Cons.prems nn have "\<bar>s + j\<bar> < 2 ^ 53" by simp
  then have a: "js_add (whole s) (whole j) = whole (s + j)" by (rule js_add_whole)
  from Cons.prems have "\<bar>s + j\<bar> + (\<Sum>j\<leftarrow>js. \<bar>j\<bar>) < 2 ^ 53" by simp
  from Cons.IH [OF this] a show ?case by (simp add: add.assoc)
qed

lemma mset_own_entries: "mset (own_entries b) = mset b"
  by (simp add: own_entries_def)

lemma Object_values_whole:
  assumes d: "distinct (map fst b)" and m: "map_of b = whole_map K J"
  shows "\<exists>ks. distinct ks \<and> set ks = K \<and> Object_values b = map (\<lambda>k. Num (whole (J k))) ks"
proof -
  let ?es = "own_entries b"
  have ms: "mset (map fst ?es) = mset (map fst b)" by (simp add: mset_own_entries)
  then have d': "distinct (map fst ?es)" using d by (metis mset_eq_imp_distinct_iff)
  from ms have "set (map fst ?es) = set (map fst b)" by (rule mset_eq_setD)
  moreover have "set (map fst b) = K"
    using m by (auto simp: whole_map_def dom_map_of_conv_image_fst [symmetric] dom_def
        split: if_splits)
  ultimately have s: "set (map fst ?es) = K" by simp
  have "snd p = Num (whole (J (fst p)))" if "p \<in> set ?es" for p
  proof -
    from that have "p \<in> set b" using mset_own_entries [of b] by (metis mset_eq_setD)
    with d have "map_of b (fst p) = Some (snd p)" by (cases p) simp
    with m show ?thesis by (simp add: whole_map_def split: if_splits)
  qed
  then have "map snd ?es = map (\<lambda>k. Num (whole (J k))) (map fst ?es)" by simp
  with d' s show ?thesis unfolding Object_values_def by blast
qed

lemma total_whole:
  assumes d: "distinct (map fst b)" and m: "map_of b = whole_map K J"
    and f: "finite K" and bound: "(\<Sum>k\<in>K. \<bar>J k\<bar>) < 2 ^ 53"
  shows "foldl plus_val (Num (Finite 0)) (Object_values b) = Num (whole (\<Sum>k\<in>K. J k))"
proof -
  from Object_values_whole [OF d m] obtain ks where
    ks: "distinct ks" "set ks = K" "Object_values b = map (\<lambda>k. Num (whole (J k))) ks" by blast
  have s1: "sum_list (map J ks) = (\<Sum>k\<in>K. J k)"
    using ks(1,2) by (simp add: sum_list_distinct_conv_sum_set)
  have s2: "(\<Sum>j\<leftarrow>map J ks. \<bar>j\<bar>) = (\<Sum>k\<in>K. \<bar>J k\<bar>)"
    using ks(1,2) sum_list_distinct_conv_sum_set [of ks "\<lambda>k. \<bar>J k\<bar>"] by (simp add: comp_def)
  from bound have "\<bar>0::int\<bar> + (\<Sum>j\<leftarrow>map J ks. \<bar>j\<bar>) < 2 ^ 53"
    unfolding s2 by simp
  then have "foldl plus_val (Num (whole 0)) (map (\<lambda>j. Num (whole j)) (map J ks)) =
        Num (whole (0 + sum_list (map J ks)))"
    by (rule foldl_plus_whole)
  then show ?thesis by (simp add: ks(3) s1 comp_def whole_def)
qed

lemma sum_list_mset_cong:
  "mset xs = mset ys \<Longrightarrow> (\<Sum>x\<leftarrow>xs. (f x :: int)) = (\<Sum>x\<leftarrow>ys. f x)"
proof -
  assume "mset xs = mset ys"
  then have "mset (map f xs) = mset (map f ys)" by simp
  then have "sum_mset (mset (map f xs)) = sum_mset (mset (map f ys))" by simp
  then show ?thesis by (simp only: sum_mset_sum_list)
qed

lemma sum_set_le_sum_list:
  "(\<And>x. 0 \<le> f x) \<Longrightarrow> sum f (set xs) \<le> (\<Sum>x\<leftarrow>xs. (f x :: int))"
proof (induction xs)
  case Nil
  then show ?case by simp
next
  case (Cons x xs)
  show ?case
  proof (cases "x \<in> set xs")
    case True
    then have "insert x (set xs) = set xs" by auto
    with Cons show ?thesis by (simp add: add_increasing)
  next
    case False
    with Cons show ?thesis by simp
  qed
qed

lemma member_le_sum_list_abs:
  "a \<in> set xs \<Longrightarrow> \<bar>f a :: int\<bar> \<le> (\<Sum>x\<leftarrow>xs. \<bar>f x\<bar>)"
proof (induction xs)
  case Nil
  then show ?case by simp
next
  case (Cons x xs)
  have nn: "0 \<le> (\<Sum>x\<leftarrow>xs. \<bar>f x\<bar>)" by (rule sum_list_nonneg) auto
  from Cons nn show ?case by (cases "a = x") auto
qed

lemma sum_abs_effect:
  assumes "finite K"
  shows "(\<Sum>k\<in>K. \<bar>spec_effect t k\<bar>) \<le> 2 * \<bar>amount t\<bar>"
proof -
  let ?S = "{source t, destination t}"
  have zero: "spec_effect t k = 0" if "k \<notin> ?S" for k
    using that by (cases t rule: tx_type_cases) (auto simp: spec_effect_def)
  have "(\<Sum>k\<in>K. \<bar>spec_effect t k\<bar>) = (\<Sum>k\<in>K \<inter> ?S. \<bar>spec_effect t k\<bar>)"
    using assms by (intro sum.mono_neutral_right) (auto simp: zero)
  also have "\<dots> \<le> (\<Sum>k\<in>?S. \<bar>spec_effect t k\<bar>)"
    by (intro sum_mono2) auto
  also have "\<dots> \<le> \<bar>spec_effect t (source t)\<bar> + \<bar>spec_effect t (destination t)\<bar>"
    by (cases "source t = destination t") simp_all
  also have "\<dots> \<le> 2 * \<bar>amount t\<bar>"
    using abs_spec_effect [of t "source t"] abs_spec_effect [of t "destination t"] by linarith
  finally show ?thesis .
qed

lemma sum_abs_effects:
  assumes "finite K"
  shows "(\<Sum>k\<in>K. \<bar>\<Sum>t\<leftarrow>ts. spec_effect t k\<bar>) \<le> 2 * (\<Sum>t\<leftarrow>ts. \<bar>amount t\<bar>)"
proof (induction ts)
  case Nil
  then show ?case by simp
next
  case (Cons t ts)
  have "(\<Sum>k\<in>K. \<bar>\<Sum>t\<leftarrow>t # ts. spec_effect t k\<bar>) \<le>
        (\<Sum>k\<in>K. \<bar>spec_effect t k\<bar> + \<bar>\<Sum>t\<leftarrow>ts. spec_effect t k\<bar>)"
    by (intro sum_mono) simp
  also have "\<dots> = (\<Sum>k\<in>K. \<bar>spec_effect t k\<bar>) + (\<Sum>k\<in>K. \<bar>\<Sum>t\<leftarrow>ts. spec_effect t k\<bar>)"
    by (rule sum.distrib)
  also have "\<dots> \<le> 2 * \<bar>amount t\<bar> + 2 * (\<Sum>t\<leftarrow>ts. \<bar>amount t\<bar>)"
    using sum_abs_effect [OF assms, of t] Cons.IH by linarith
  finally show ?case by simp
qed

lemma initial_abs:
  assumes plain: "set accounts \<inter> set Object_prototype = {}"
    and ini: "\<forall>a\<in>set accounts. spec_initial accounts ib a = Num (whole (ini a))"
  shows "map_of (fold (init_account (case ib of None \<Rightarrow> Map.empty | Some m \<Rightarrow> m)) accounts []) =
           whole_map (set accounts) (\<lambda>k. if k \<in> set accounts then ini k else 0)"
proof
  fix k
  show "map_of (fold (init_account (case ib of None \<Rightarrow> Map.empty | Some m \<Rightarrow> m)) accounts []) k =
           whole_map (set accounts) (\<lambda>k. if k \<in> set accounts then ini k else 0) k"
  proof (cases "k \<in> set accounts")
    case True
    with plain have p: "k \<notin> set Object_prototype" by auto
    have "map_of (fold (init_account (case ib of None \<Rightarrow> Map.empty | Some m \<Rightarrow> m)) accounts []) k =
          Some (or_zero (map_of (fold (init_account (case ib of None \<Rightarrow> Map.empty | Some m \<Rightarrow> m))
                  accounts []) k))"
      using True p by (simp add: map_of_init_accounts plain_not_proto)
    also have "\<dots> = Some (spec_initial accounts ib k)" by (simp add: initial_value [OF p])
    finally show ?thesis using True ini by (simp add: whole_map_def)
  next
    case False
    then show ?thesis by (simp add: map_of_init_accounts whole_map_def)
  qed
qed

lemma stats_exact:
  assumes plain: "(set accounts \<union> (\<Union>t\<in>set ts. touched t)) \<inter> set Object_prototype = {}"
    and ini: "\<forall>a\<in>set accounts. spec_initial accounts ib a = Num (whole (ini a))"
    and bound: "(\<Sum>a\<leftarrow>accounts. \<bar>ini a\<bar>) + 2 * (\<Sum>t\<leftarrow>ts. \<bar>amount t\<bar>) < 2 ^ 53"
  defines "K \<equiv> set accounts \<union> (\<Union>t\<in>set ts. touched t)"
    and "J \<equiv> \<lambda>k. (if k \<in> set accounts then ini k else 0)
                 + (if k = [] then 0 else (\<Sum>t\<leftarrow>ts. spec_effect t k))"
  shows "map_of (balances (Dashboard_stats cm ts accounts ib)) = whole_map K J"
    and "totalAssets (Dashboard_stats cm ts accounts ib) = Num (whole (\<Sum>k\<in>K. J k))"
    and "monthlyIncome (Dashboard_stats cm ts accounts ib) = whole (\<Sum>t\<leftarrow>ts. month_income cm t)"
    and "monthlyExpense (Dashboard_stats cm ts accounts ib) = whole (\<Sum>t\<leftarrow>ts. month_expense cm t)"
proof -
  let ?I = "\<lambda>k. if k \<in> set accounts then ini k else 0"
  let ?w0 = "\<lparr>balances = fold (init_account (case ib of None \<Rightarrow> Map.empty | Some m \<Rightarrow> m)) accounts [],
              monthlyIncome = Finite 0, monthlyExpense = Finite 0\<rparr>"
  have nnA: "0 \<le> (\<Sum>t\<leftarrow>ts. \<bar>amount t\<bar>)" and nnI: "0 \<le> (\<Sum>a\<leftarrow>accounts. \<bar>ini a\<bar>)"
    by (rule sum_list_nonneg, auto)+
  from plain have pa: "set accounts \<inter> set Object_prototype = {}"
    and pt: "\<forall>t\<in>set ts. touched t \<inter> set Object_prototype = {}" by auto
  have m0: "map_of (balances ?w0) = whole_map (set accounts) ?I"
    using initial_abs [OF pa ini] by simp
  have z0: "\<forall>k. k \<notin> set accounts \<longrightarrow> ?I k = 0" by simp
  have b0: "\<forall>k. \<bar>?I k\<bar> + (\<Sum>t\<leftarrow>ts. \<bar>amount t\<bar>) < 2 ^ 53"
  proof
    fix k
    have "\<bar>?I k\<bar> \<le> (\<Sum>a\<leftarrow>accounts. \<bar>ini a\<bar>)"
      using member_le_sum_list_abs [of k accounts ini] nnI by auto
    with bound nnA show "\<bar>?I k\<bar> + (\<Sum>t\<leftarrow>ts. \<bar>amount t\<bar>) < 2 ^ 53" by linarith
  qed
  show maps: "map_of (balances (Dashboard_stats cm ts accounts ib)) = whole_map K J"
    unfolding stats_balances K_def J_def by (rule walk_abs [OF m0 z0 pt b0])
  have fin: "finite K"
  proof -
    have "finite (touched t)" for t
      by (cases t rule: tx_type_cases) (simp_all add: touched_def)
    then show ?thesis by (simp add: K_def)
  qed
  have "(\<Sum>k\<in>K. \<bar>J k\<bar>) \<le> (\<Sum>k\<in>K. \<bar>?I k\<bar> + \<bar>\<Sum>t\<leftarrow>ts. spec_effect t k\<bar>)"
    by (intro sum_mono) (auto simp: J_def intro: abs_triangle_ineq)
  also have "\<dots> = (\<Sum>k\<in>K. \<bar>?I k\<bar>) + (\<Sum>k\<in>K. \<bar>\<Sum>t\<leftarrow>ts. spec_effect t k\<bar>)"
    by (rule sum.distrib)
  also have "(\<Sum>k\<in>K. \<bar>?I k\<bar>) = (\<Sum>k\<in>set accounts. \<bar>ini k\<bar>)"
  proof -
    have "(\<Sum>k\<in>K. \<bar>?I k\<bar>) = (\<Sum>k\<in>set accounts. \<bar>?I k\<bar>)"
      using fin by (intro sum.mono_neutral_right) (auto simp: K_def)
    then show ?thesis by simp
  qed
  also have "(\<Sum>k\<in>set accounts. \<bar>ini k\<bar>) \<le> (\<Sum>a\<leftarrow>accounts. \<bar>ini a\<bar>)"
    by (rule sum_set_le_sum_list) simp
  finally have "(\<Sum>k\<in>K. \<bar>J k\<bar>) \<le> (\<Sum>a\<leftarrow>accounts. \<bar>ini a\<bar>) + 2 * (\<Sum>t\<leftarrow>ts. \<bar>amount t\<bar>)"
    using sum_abs_effects [OF fin, of ts] by linarith
  with bound have tb: "(\<Sum>k\<in>K. \<bar>J k\<bar>) < 2 ^ 53" by linarith
  show "totalAssets (Dashboard_stats cm ts accounts ib) = Num (whole (\<Sum>k\<in>K. J k))"
    using total_whole [OF stats_distinct maps fin tb]
    by (simp add: Dashboard_stats_def Let_def)
  have mb: "\<bar>0::int\<bar> + (\<Sum>t\<leftarrow>ts. \<bar>amount t\<bar>) < 2 ^ 53" using bound nnA nnI by linarith
  show "monthlyIncome (Dashboard_stats cm ts accounts ib) = whole (\<Sum>t\<leftarrow>ts. month_income cm t)"
    using walk_income [of ?w0 0 ts cm, OF _ mb] by (simp add: Dashboard_stats_def Let_def whole_def)
  show "monthlyExpense (Dashboard_stats cm ts accounts ib) = whole (\<Sum>t\<leftarrow>ts. month_expense cm t)"
    using walk_expense [of ?w0 0 ts cm, OF _ mb] by (simp add: Dashboard_stats_def Let_def whole_def)
qed

text \<open>
  C6, as amended. Take two transaction collections that are permutations of each
  other, with the same accounts, the same initial balances and the same current
  month. If no account of \<open>accounts\<close> and no account a transaction writes to names a
  member of \<^verbatim>\<open>Object.prototype\<close>, every account of \<open>accounts\<close> starts at a whole
  number, the amounts are whole, and the sum of the magnitudes of the starts plus
  twice the sum of the magnitudes of the amounts is below \<open>2^53\<close>, then the two
  computations give the same balance for every key of \<^verbatim>\<open>balances\<close> (and the same
  keys), the same \<^verbatim>\<open>totalAssets\<close>, the same \<^verbatim>\<open>monthlyIncome\<close> and the same
  \<^verbatim>\<open>monthlyExpense\<close>; each monthly figure is the sum over the collection of a
  quantity of the single transaction (its type, its date and its amount).
\<close>

theorem stats_permutation_invariant:
  assumes "mset ts = mset ts'"
    and "(set accounts \<union> (\<Union>t\<in>set ts. touched t)) \<inter> set Object_prototype = {}"
    and "\<forall>a\<in>set accounts. spec_initial accounts ib a = Num (whole (ini a))"
    and "(\<Sum>a\<leftarrow>accounts. \<bar>ini a\<bar>) + 2 * (\<Sum>t\<leftarrow>ts. \<bar>amount t\<bar>) < 2 ^ 53"
  shows "map_of (balances (Dashboard_stats cm ts accounts ib)) =
           map_of (balances (Dashboard_stats cm ts' accounts ib))
       \<and> totalAssets (Dashboard_stats cm ts accounts ib) =
           totalAssets (Dashboard_stats cm ts' accounts ib)
       \<and> monthlyIncome (Dashboard_stats cm ts accounts ib) =
           monthlyIncome (Dashboard_stats cm ts' accounts ib)
       \<and> monthlyExpense (Dashboard_stats cm ts accounts ib) =
           monthlyExpense (Dashboard_stats cm ts' accounts ib)
       \<and> monthlyIncome (Dashboard_stats cm ts accounts ib) = whole (\<Sum>t\<leftarrow>ts. month_income cm t)
       \<and> monthlyExpense (Dashboard_stats cm ts accounts ib) = whole (\<Sum>t\<leftarrow>ts. month_expense cm t)"
proof -
  from assms(1) have sets: "set ts = set ts'" by (rule mset_eq_setD)
  note sums = sum_list_mset_cong [OF assms(1)]
  have p': "(set accounts \<union> (\<Union>t\<in>set ts'. touched t)) \<inter> set Object_prototype = {}"
    using assms(2) by (simp add: sets)
  have b': "(\<Sum>a\<leftarrow>accounts. \<bar>ini a\<bar>) + 2 * (\<Sum>t\<leftarrow>ts'. \<bar>amount t\<bar>) < 2 ^ 53"
    using assms(4) by (simp add: sums)
  note A = stats_exact [OF assms(2,3,4), of cm]
  note B = stats_exact [OF p' assms(3) b', of cm]
  show ?thesis
    by (simp add: A B sets sums cong: if_cong)
qed

lemma or_zero_Finite [simp]: "or_zero (Some (Num (Finite x))) = Num (Finite x)"
  by (simp add: or_zero_def)

lemma income_cash_step:
  assumes "tx_type t = Some INCOME" and "destination t = ''Cash''"
    and "startsWith (replace_all (CHR ''/'') (CHR ''-'') (date t)) cm"
    and "to_number (amount t) = Finite q"
  shows "stats_step cm t \<lparr>balances = [(''Cash'', Num (Finite x))], monthlyIncome = Finite m,
                           monthlyExpense = e\<rparr> =
         \<lparr>balances = [(''Cash'', Num (fl (x + q)))], monthlyIncome = fl (m + q),
          monthlyExpense = e\<rparr>"
  using assms
  by (simp add: stats_step_def Let_def increase_def assign_def property_def Object_prototype_def)

lemma cash_start:
  "init_account Map.empty ''Cash'' [] = [(''Cash'', Num (Finite 0))]"
  by (simp add: init_account_def assign_def property_def Object_prototype_def or_zero_def)

lemma cash_total:
  "foldl (\<lambda>acc val. plus_val acc val) (Num (Finite 0)) (Object_values [(''Cash'', Num (Finite x))])
     = Num (fl x)"
  by (simp add: Object_values_def own_entries_def)

lemma to_number_large:
  "to_number 9007199254740992 = Finite 9007199254740992" "to_number 1 = Finite 1"
  by (simp_all add: to_number_def fl_two_53 fl_small)

text \<open>
  C6 as stated fails for amounts beyond \<open>2^53\<close>. Three \<^verbatim>\<open>INCOME\<close> transactions to
  Cash of \<open>2^53\<close>, 1 and 1 leave \<open>2^53\<close> in this order, each addition of 1 being
  rounded away, and \<open>2^53 + 2\<close> in the order 1, 1, \<open>2^53\<close>: the balance of Cash,
  \<^verbatim>\<open>totalAssets\<close> and \<^verbatim>\<open>monthlyIncome\<close> all differ between the two permutations.
\<close>

theorem stats_permutation_invariant_counterexample:
  "(let a = \<lparr>tx_id = ''a'', date = ''2024/05/02'', tx_type = Some INCOME, source = ''Salary'',
             destination = ''Cash'', amount = 9007199254740992, summary = [], payer = None,
             projectCode = None, invoiceNumber = None\<rparr>;
        b = \<lparr>tx_id = ''b'', date = ''2024/05/03'', tx_type = Some INCOME, source = ''Salary'',
             destination = ''Cash'', amount = 1, summary = [], payer = None,
             projectCode = None, invoiceNumber = None\<rparr>;
        c = \<lparr>tx_id = ''c'', date = ''2024/05/04'', tx_type = Some INCOME, source = ''Salary'',
             destination = ''Cash'', amount = 1, summary = [], payer = None,
             projectCode = None, invoiceNumber = None\<rparr>
    in mset [a, b, c] = mset [b, c, a]
     \<and> Dashboard_stats ''2024-05'' [a, b, c] [''Cash''] None =
         \<lparr>balances = [(''Cash'', Num (Finite 9007199254740992))],
          monthlyIncome = Finite 9007199254740992, monthlyExpense = Finite 0,
          totalAssets = Num (Finite 9007199254740992)\<rparr>
     \<and> Dashboard_stats ''2024-05'' [b, c, a] [''Cash''] None =
         \<lparr>balances = [(''Cash'', Num (Finite 9007199254740994))],
          monthlyIncome = Finite 9007199254740994, monthlyExpense = Finite 0,
          totalAssets = Num (Finite 9007199254740994)\<rparr>)"
proof -
  define a where "a = \<lparr>tx_id = ''a'', date = ''2024/05/02'', tx_type = Some INCOME,
             source = ''Salary'', destination = ''Cash'', amount = 9007199254740992,
             summary = [], payer = None, projectCode = None, invoiceNumber = None\<rparr>"
  define b where "b = \<lparr>tx_id = ''b'', date = ''2024/05/03'', tx_type = Some INCOME,
             source = ''Salary'', destination = ''Cash'', amount = 1, summary = [], payer = None,
             projectCode = None, invoiceNumber = None\<rparr>"
  define c where "c = \<lparr>tx_id = ''c'', date = ''2024/05/04'', tx_type = Some INCOME,
             source = ''Salary'', destination = ''Cash'', amount = 1, summary = [], payer = None,
             projectCode = None, invoiceNumber = None\<rparr>"
  have sa: "stats_step ''2024-05'' a \<lparr>balances = [(''Cash'', Num (Finite x))],
              monthlyIncome = Finite m, monthlyExpense = e\<rparr> =
            \<lparr>balances = [(''Cash'', Num (fl (x + 9007199254740992)))],
             monthlyIncome = fl (m + 9007199254740992), monthlyExpense = e\<rparr>" for x m e
    by (rule income_cash_step)
       (simp_all add: a_def startsWith_def replace_all_def to_number_large)
  have sb: "stats_step ''2024-05'' b \<lparr>balances = [(''Cash'', Num (Finite x))],
              monthlyIncome = Finite m, monthlyExpense = e\<rparr> =
            \<lparr>balances = [(''Cash'', Num (fl (x + 1)))],
             monthlyIncome = fl (m + 1), monthlyExpense = e\<rparr>" for x m e
    by (rule income_cash_step)
       (simp_all add: b_def startsWith_def replace_all_def to_number_large)
  have sc: "stats_step ''2024-05'' c \<lparr>balances = [(''Cash'', Num (Finite x))],
              monthlyIncome = Finite m, monthlyExpense = e\<rparr> =
            \<lparr>balances = [(''Cash'', Num (fl (x + 1)))],
             monthlyIncome = fl (m + 1), monthlyExpense = e\<rparr>" for x m e
    by (rule income_cash_step)
       (simp_all add: c_def startsWith_def replace_all_def to_number_large)
  have one: "mset [a, b, c] = mset [b, c, a]" by simp
  have two: "Dashboard_stats ''2024-05'' [a, b, c] [''Cash''] None =
         \<lparr>balances = [(''Cash'', Num (Finite 9007199254740992))],
          monthlyIncome = Finite 9007199254740992, monthlyExpense = Finite 0,
          totalAssets = Num (Finite 9007199254740992)\<rparr>"
    by (simp add: Dashboard_stats_def Let_def cash_start sa sb sc cash_total
        fl_two_53 fl_two_53_plus_1)
  have three: "Dashboard_stats ''2024-05'' [b, c, a] [''Cash''] None =
         \<lparr>balances = [(''Cash'', Num (Finite 9007199254740994))],
          monthlyIncome = Finite 9007199254740994, monthlyExpense = Finite 0,
          totalAssets = Num (Finite 9007199254740994)\<rparr>"
    by (simp add: Dashboard_stats_def Let_def cash_start sa sb sc cash_total
        fl_small fl_two_53_plus_2)
  from one two three show ?thesis
    unfolding Let_def a_def [symmetric] b_def [symmetric] c_def [symmetric] by blast
qed

text \<open>
  C6, as amended, at a transfer and an income in both orders.
\<close>

theorem stats_permutation_invariant_witness:
  "(let a = \<lparr>tx_id = ''a'', date = ''2024/05/02'', tx_type = Some TRANSFER, source = ''Cash'',
             destination = ''Bank'', amount = 40, summary = [], payer = None,
             projectCode = None, invoiceNumber = None\<rparr>;
        b = \<lparr>tx_id = ''b'', date = ''2024/05/03'', tx_type = Some INCOME, source = ''Salary'',
             destination = ''Bank'', amount = 500, summary = [], payer = None,
             projectCode = None, invoiceNumber = None\<rparr>
    in mset [b, a] = mset [a, b]
     \<and> map_of (balances (Dashboard_stats ''2024-05'' [b, a] [''Cash''] None)) =
         map_of (balances (Dashboard_stats ''2024-05'' [a, b] [''Cash''] None))
     \<and> totalAssets (Dashboard_stats ''2024-05'' [b, a] [''Cash''] None) =
         totalAssets (Dashboard_stats ''2024-05'' [a, b] [''Cash''] None)
     \<and> monthlyIncome (Dashboard_stats ''2024-05'' [b, a] [''Cash''] None) = whole 500)"
proof -
  define a where "a = \<lparr>tx_id = ''a'', date = ''2024/05/02'', tx_type = Some TRANSFER,
             source = ''Cash'', destination = ''Bank'', amount = 40, summary = [], payer = None,
             projectCode = None, invoiceNumber = None\<rparr>"
  define b where "b = \<lparr>tx_id = ''b'', date = ''2024/05/03'', tx_type = Some INCOME,
             source = ''Salary'', destination = ''Bank'', amount = 500, summary = [], payer = None,
             projectCode = None, invoiceNumber = None\<rparr>"
  have h: "mset [b, a] = mset [a, b]" by simp
  have p: "(set [''Cash''] \<union> (\<Union>t\<in>set [b, a]. touched t)) \<inter> set Object_prototype = {}"
    by (simp add: a_def b_def touched_def Object_prototype_def)
  have i: "\<forall>k\<in>set [''Cash'']. spec_initial [''Cash''] None k = Num (whole ((\<lambda>k. 0) k))"
    by (simp add: spec_initial_def whole_def)
  have n: "(\<Sum>k\<leftarrow>[''Cash'']. \<bar>(\<lambda>k. 0::int) k\<bar>) + 2 * (\<Sum>t\<leftarrow>[b, a]. \<bar>amount t\<bar>) < 2 ^ 53"
    by (simp add: a_def b_def)
  have inc: "(\<Sum>t\<leftarrow>[b, a]. month_income ''2024-05'' t) = 500"
    by (simp add: a_def b_def month_income_def startsWith_def replace_all_def)
  from stats_permutation_invariant [OF h p i n, of "''2024-05''"]
  have "map_of (balances (Dashboard_stats ''2024-05'' [b, a] [''Cash''] None)) =
         map_of (balances (Dashboard_stats ''2024-05'' [a, b] [''Cash''] None))
     \<and> totalAssets (Dashboard_stats ''2024-05'' [b, a] [''Cash''] None) =
         totalAssets (Dashboard_stats ''2024-05'' [a, b] [''Cash''] None)
     \<and> monthlyIncome (Dashboard_stats ''2024-05'' [b, a] [''Cash''] None) = whole 500"
    unfolding inc by blast
  with h show ?thesis
    unfolding Let_def a_def [symmetric] b_def [symmetric] by blast
qed

section \<open>Properties of the settings editor and the form\<close>

lemma filter_enumerate_above:
  "n < k \<Longrightarrow> map snd (filter (\<lambda>(i, x). i \<noteq> n) (enumerate k xs)) = xs"
  by (induction xs arbitrary: k) simp_all

lemma filter_enumerate_remove:
  "k \<le> n \<Longrightarrow> map snd (filter (\<lambda>(i, x). i \<noteq> n) (enumerate k xs)) =
     take (n - k) xs @ drop (Suc (n - k)) xs"
proof (induction xs arbitrary: k)
  case Nil
  then show ?case by simp
next
  case (Cons x xs)
  show ?case
  proof (cases "k = n")
    case True
    then show ?thesis by (simp add: filter_enumerate_above)
  next
    case False
    with Cons.prems have lt: "Suc k \<le> n" by simp
    then have "n - k = Suc (n - Suc k)" by simp
    with Cons.IH [OF lt] False show ?thesis by simp
  qed
qed

lemma filter_index_remove:
  "filter_index (\<lambda>i. i \<noteq> n) xs = take n xs @ drop (Suc n) xs"
  using filter_enumerate_remove [of 0 n xs] by (simp add: filter_index_def)

text \<open>
  C9. Deleting the account at a position of \<open>commonSources\<close> removes that position from
  the list, removes the account's entry of \<open>initialBalances\<close> in the same edit, leaves
  every other entry as it was, and leaves \<open>commonDestinations\<close>, \<open>commonIncomeSources\<close>
  and \<open>commonNotes\<close> unchanged.
\<close>

theorem handleDeleteSource_frame:
  assumes "index < length (commonSources s)"
  shows "commonSources (handleDeleteSource index s) =
           take index (commonSources s) @ drop (Suc index) (commonSources s)
       \<and> initialBalance_of (handleDeleteSource index s) (commonSources s ! index) = None
       \<and> (\<forall>k. k \<noteq> commonSources s ! index \<longrightarrow>
             initialBalance_of (handleDeleteSource index s) k = initialBalance_of s k)
       \<and> commonDestinations (handleDeleteSource index s) = commonDestinations s
       \<and> commonIncomeSources (handleDeleteSource index s) = commonIncomeSources s
       \<and> commonNotes (handleDeleteSource index s) = commonNotes s"
  using assms
  by (simp add: handleDeleteSource_def Let_def filter_index_remove initialBalance_of_def
      split: option.splits)

text \<open>
  C9 at the settings with accounts Cash (100) and Bank (5): deleting position 0 leaves
  Bank with its 5 and no entry for Cash.
\<close>

theorem handleDeleteSource_frame_witness:
  "(let s = \<lparr>commonSources = [''Cash'', ''Bank''], commonDestinations = [''Food''],
             commonIncomeSources = [''Salary''], commonNotes = [''Lunch''],
             initialBalances = Some [''Cash'' \<mapsto> whole 100, ''Bank'' \<mapsto> whole 5]\<rparr>
    in (0::nat) < length (commonSources s)
     \<and> commonSources (handleDeleteSource 0 s) = [''Bank'']
     \<and> initialBalance_of (handleDeleteSource 0 s) ''Cash'' = None
     \<and> initialBalance_of (handleDeleteSource 0 s) ''Bank'' = Some (whole 5)
     \<and> commonDestinations (handleDeleteSource 0 s) = [''Food''])"
  using handleDeleteSource_frame [of 0 "\<lparr>commonSources = [''Cash'', ''Bank''],
             commonDestinations = [''Food''],
             commonIncomeSources = [''Salary''], commonNotes = [''Lunch''],
             initialBalances = Some [''Cash'' \<mapsto> whole 100, ''Bank'' \<mapsto> whole 5]\<rparr>"]
  by (simp add: initialBalance_of_def)

text \<open>
  C8. A split expense of total \<open>N\<close> whose two amounts are the ones the form computed
  (no amount typed for an item) is submitted as exactly two EXPENSE transactions with
  the same date, source, summary and payer, with the two chosen destinations, with
  distinct ids (the two ids drawn being distinct), and with the amounts
  \<open>floor (N / 2)\<close> and \<open>N - floor (N / 2)\<close>, which sum to \<open>N\<close>.
\<close>

theorem split_default_amounts:
  assumes "isSplit f" and "f_type f = EXPENSE" and "f_source f \<noteq> []"
    and "truthy (f_amount f)" and "destinationA f \<noteq> []" and "destinationB f \<noteq> []"
    and "uuidv4 0 \<noteq> uuidv4 1"
  shows "(case fst (handleSubmit uuidv4 None (split_effect f)) of
            Some [t1, t2] \<Rightarrow>
              tx_type t1 = Some EXPENSE \<and> tx_type t2 = Some EXPENSE
            \<and> date t1 = date t2 \<and> source t1 = f_source f \<and> source t2 = f_source f
            \<and> summary t1 = f_summary f \<and> summary t2 = f_summary f
            \<and> payer t1 = Some (f_payer f) \<and> payer t2 = Some (f_payer f)
            \<and> tx_id t1 \<noteq> tx_id t2
            \<and> destination t1 = destinationA f \<and> destination t2 = destinationB f
            \<and> amount t1 = Number (f_amount f) div 2
            \<and> amount t2 = Number (f_amount f) - Number (f_amount f) div 2
            \<and> amount t1 + amount t2 = Number (f_amount f)
          | _ \<Rightarrow> False)"
  using assms
  by (simp add: handleSubmit_def split_effect_def Let_def baseTransaction_def)

text \<open>
  C8 at the total 101: the two amounts are 50 and 51.
\<close>

theorem split_default_amounts_witness:
  "(let f = \<lparr>f_type = EXPENSE, f_date = ''2024-05-02'', f_source = ''Cash'',
             f_destination = [], f_amount = Typed 101, f_summary = ''dinner'',
             f_payer = ''me'', isSplit = True, destinationA = ''Food'',
             destinationB = ''Drinks'', amountA = Blank, amountB = Blank\<rparr>;
        ids = (\<lambda>k. if k = 0 then ''id-0'' else ''id-1'')
    in isSplit f \<and> f_type f = EXPENSE \<and> f_source f \<noteq> [] \<and> truthy (f_amount f)
     \<and> destinationA f \<noteq> [] \<and> destinationB f \<noteq> [] \<and> ids 0 \<noteq> ids (1::nat)
     \<and> map amount (the (fst (handleSubmit ids None (split_effect f)))) = [50, 51]
     \<and> map destination (the (fst (handleSubmit ids None (split_effect f)))) = [''Food'', ''Drinks''])"
proof -
  let ?f = "\<lparr>f_type = EXPENSE, f_date = ''2024-05-02'', f_source = ''Cash'',
             f_destination = [], f_amount = Typed 101, f_summary = ''dinner'',
             f_payer = ''me'', isSplit = True, destinationA = ''Food'',
             destinationB = ''Drinks'', amountA = Blank, amountB = Blank\<rparr>"
  let ?ids = "\<lambda>k::nat. if k = 0 then ''id-0'' else ''id-1''"
  have "case fst (handleSubmit ?ids None (split_effect ?f)) of
          Some [t1, t2] \<Rightarrow> destination t1 = ''Food'' \<and> destination t2 = ''Drinks''
            \<and> amount t1 = 50 \<and> amount t2 = 51 | _ \<Rightarrow> False"
    using split_default_amounts [of ?f ?ids]
    by (simp split: option.splits list.splits)
  then show ?thesis
    by (simp add: Let_def split: option.splits list.splits)
qed

section \<open>Properties of the adapter\<close>

lemma sdk_call_eq:
  "sdk_call rq f w =
     (fst (f (outside w)), w\<lparr>outside := snd (f (outside w)), requests := requests w @ [rq]\<rparr>)"
  by (simp add: sdk_call_def split: prod.split)

text \<open>
  C10. With no authenticated client (\<^verbatim>\<open>this.dbx\<close> is null), \<open>checkFileExists\<close> returns
  false for every path, sending nothing, while \<open>uploadFile\<close> and \<open>downloadFile\<close> throw
  the error "Not authenticated".
\<close>

theorem unauthenticated_adapter:
  assumes "this_dbx w = None"
  shows "checkFileExists E filename isAbsolute w = (Inr False, w)
       \<and> uploadFile E data filename isAbsolute w = (Inl (Error ''Not authenticated''), w)
       \<and> downloadFile filesDownload_as filename isAbsolute w = (Inl (Error ''Not authenticated''), w)"
  using assms by (simp add: checkFileExists_def uploadFile_def downloadFile_def)

text \<open>
  C10 at the signed-in application after its client handle has been dropped.
\<close>

theorem unauthenticated_adapter_witness:
  "this_dbx (signed_in\<lparr>this_dbx := None\<rparr>) = None
   \<and> fst (checkFileExists quiet_sdk ''bookkeeping_data.json'' False (signed_in\<lparr>this_dbx := None\<rparr>))
       = Inr False
   \<and> fst (uploadFile quiet_sdk (TransactionsDoc []) ''bookkeeping_data.json'' False
            (signed_in\<lparr>this_dbx := None\<rparr>)) = Inl (Error ''Not authenticated'')
   \<and> fst (downloadFile (download_transactions quiet_sdk) ''bookkeeping_data.json'' False
            (signed_in\<lparr>this_dbx := None\<rparr>)) = Inl (Error ''Not authenticated'')"
  using unauthenticated_adapter [of "signed_in\<lparr>this_dbx := None\<rparr>" quiet_sdk
      "''bookkeeping_data.json''" False "TransactionsDoc []" "download_transactions quiet_sdk"]
  by simp

text \<open>
  C2. The claim asks that a failure of the registry read that is not "not found" reach
  the caller. In \<open>getProfiles\<close> the \<^verbatim>\<open>catch\<close> around the download returns
  \<^verbatim>\<open>['Default']\<close> for whatever was thrown: with the network down (the download throws
  "Failed to fetch") it answers \<^verbatim>\<open>['Default']\<close> and raises nothing.
\<close>

theorem getProfiles_swallows_error:
  "getProfiles (quiet_sdk\<lparr>download_registry := (\<lambda>p r. (Inl network_error, r))\<rparr>) signed_in =
     (Inr [''Default''], signed_in\<lparr>requests := [Download ''/profiles.json'']\<rparr>)"
  by (simp add: getProfiles_def downloadFile_def sdk_call_eq signed_in_def quiet_sdk_def
      network_error_def Error_def str_includes_def sublist_code)

section \<open>Properties of the ledger store\<close>

lemma handleAddTransaction_transactions:
  "transactions (handleAddTransaction E ts w) =
     (if editingTransaction w \<noteq> None \<and> length ts = 1
      then apply_operation (Update (hd ts)) (transactions w)
      else apply_operation (Add ts) (transactions w))"
  by (simp add: handleAddTransaction_def uploadFile_def sdk_call_eq Let_def show_alert_def
      updateSuggestions_def split: prod.splits sum.splits)

lemma handleAddTransaction_editing:
  "editingTransaction (handleAddTransaction E ts w) =
     (if editingTransaction w \<noteq> None \<and> length ts = 1 then None else editingTransaction w)"
  by (simp add: handleAddTransaction_def uploadFile_def sdk_call_eq Let_def show_alert_def
      updateSuggestions_def split: prod.splits sum.splits)

lemma handleDeleteTransaction_transactions:
  "transactions (handleDeleteTransaction E user ident w) =
     (if user ConfirmDeleteTransaction then apply_operation (Remove ident) (transactions w)
      else transactions w)"
  by (simp add: handleDeleteTransaction_def uploadFile_def sdk_call_eq Let_def show_alert_def
      split: prod.splits sum.splits)

lemma handleDeleteTransaction_editing:
  "editingTransaction (handleDeleteTransaction E user ident w) = editingTransaction w"
  by (simp add: handleDeleteTransaction_def uploadFile_def sdk_call_eq Let_def show_alert_def
      split: prod.splits sum.splits)

text \<open>
  C4. After any sequence of user mutations, run against any SDK from any state (so with
  every persistence call free to succeed or to fail), the in-memory collection is the
  fold of the store operations the sequence asks for (append for add, replace by id for
  update, filter by id for remove) over the initial collection: a failed write rolls
  nothing back.
\<close>

theorem mutations_are_fold:
  "transactions (fold (handle E) evs w) =
     fold apply_operation (calls (editingTransaction w \<noteq> None) evs) (transactions w)"
proof (induction evs arbitrary: w)
  case Nil
  show ?case by simp
next
  case (Cons ev evs)
  show ?case
  proof (cases ev)
    case (Edit t)
    then show ?thesis by (simp add: Cons.IH handleEditTransaction_def)
  next
    case CancelEdit
    then show ?thesis by (simp add: Cons.IH)
  next
    case (Submit ts)
    then show ?thesis
      by (simp add: Cons.IH handleAddTransaction_transactions handleAddTransaction_editing
          del: apply_operation.simps)
  next
    case (Delete ident answer)
    then show ?thesis
      by (simp add: Cons.IH handleDeleteTransaction_transactions handleDeleteTransaction_editing
          del: apply_operation.simps)
  qed
qed

lemma only_reads_refl [simp]: "only_reads w w"
  by (simp add: only_reads_def)

lemma checkFileExists_reads:
  "checkFileExists E f a w = (res, w') \<Longrightarrow> only_reads w w'"
  by (auto simp: checkFileExists_def sdk_call_eq Let_def only_reads_def session_def
      split: if_splits sum.splits)

lemma downloadFile_reads:
  "downloadFile d f a w = (res, w') \<Longrightarrow> only_reads w w'"
  by (auto simp: downloadFile_def sdk_call_eq Let_def only_reads_def session_def
      split: if_splits sum.splits)

lemma checkFileExists_absent:
  "checkFileExists E f False w = (Inr False, w') \<Longrightarrow> this_dbx w \<noteq> None \<Longrightarrow>
     confirmed_absent E (getPath f w) w"
  by (auto simp: checkFileExists_def sdk_call_eq Let_def confirmed_absent_def says_not_found_def
      split: if_splits sum.splits)

lemma load_settings_reads_requests:
  "filter is_write (requests (load_settings E w)) = filter is_write (requests w)"
proof (cases "checkFileExists E ''settings.json'' False w")
  case (Pair res w1)
  note r1 = checkFileExists_reads [OF Pair]
  show ?thesis
  proof (cases res)
    case (Inl error)
    with Pair r1 show ?thesis by (simp add: load_settings_def only_reads_def)
  next
    case (Inr settingsExists)
    show ?thesis
    proof (cases settingsExists)
      case False
      with Pair Inr r1 show ?thesis by (simp add: load_settings_def only_reads_def)
    next
      case True
      obtain res2 w2 where l: "loadSettings E w1 = (res2, w2)" by (cases "loadSettings E w1")
      then have r2: "only_reads w1 w2"
        by (auto simp: loadSettings_def dest: downloadFile_reads)
      from Pair Inr True l r1 r2 show ?thesis
        by (simp add: load_settings_def only_reads_def split: sum.splits option.splits)
    qed
  qed
qed

lemma logout_fields:
  "filter is_write (requests (logout E w)) = filter is_write (requests w)"
  "transactions (logout E w) = transactions w"
  "ui (logout E w) = ui w"
  by (simp_all add: logout_def sdk_call_eq Let_def)

lemma handleLogout_fields:
  "filter is_write (requests (handleLogout E user w)) = filter is_write (requests w)"
  "transactions (handleLogout E user w) = (if user ConfirmLogout then [] else transactions w)"
  "ui (handleLogout E user w) =
     ui w @ (if user ConfirmLogout \<and> user ConfirmOpenLogoutPage
             then [WindowOpen ''https://www.dropbox.com/logout''] else [])"
  by (simp_all add: handleLogout_def Let_def logout_fields)

lemma status_of_TypeError: "status_of TypeError = Inr None"
  by (simp add: status_of_def TypeError_def Error_def)

lemma status_of_thrown: "status_of error = Inl thrown \<Longrightarrow> thrown = TypeError"
  by (auto simp: status_of_def Let_def split: option.splits if_splits)

lemma error_tag_TypeError: "error_tag TypeError = None"
  by (simp add: TypeError_def Error_def)

lemma load_catch_TypeError:
  "load_catch E user TypeError w = (Inr (), (show_alert LoadFailed w)\<lparr>isLoading := False\<rparr>)"
  by (simp add: load_catch_def status_of_TypeError error_tag_TypeError)

lemma load_catch_fields:
  "filter is_write (requests (snd (load_catch E user error w))) = filter is_write (requests w)"
  by (simp add: load_catch_def handleLogout_fields show_alert_def split: sum.splits)

lemma getPath_isLoading [simp]: "getPath f (w\<lparr>isLoading := b\<rparr>) = getPath f w"
  by (simp add: getPath_def)

lemma load_transactions_exists:
  "load_transactions E True w = (res, w') \<Longrightarrow>
     filter is_write (requests w') = filter is_write (requests w)"
proof -
  assume a: "load_transactions E True w = (res, w')"
  obtain r1 w1 where d: "downloadFile (download_transactions E) ''bookkeeping_data.json'' False w = (r1, w1)"
    by (cases "downloadFile (download_transactions E) ''bookkeeping_data.json'' False w")
  from downloadFile_reads [OF d] have "filter is_write (requests w1) = filter is_write (requests w)"
    by (simp add: only_reads_def)
  with a d show ?thesis
    by (auto simp: load_transactions_def updateSuggestions_def split: sum.splits option.splits)
qed

lemma load_transactions_absent:
  "load_transactions E False w = (res, w') \<Longrightarrow>
     filter is_write (requests w') =
       filter is_write (requests w) @
         (if this_dbx w = None then []
          else [Upload (getPath ''bookkeeping_data.json'' w) (TransactionsDoc [])])"
  by (auto simp: load_transactions_def uploadFile_def sdk_call_eq Let_def
      split: sum.splits if_splits)

lemma load_after_transactions:
  "filter is_write (requests (snd (case res of
       Inl error \<Rightarrow> load_catch E user error w2
     | Inr u \<Rightarrow> (Inr (), (load_settings E w2)\<lparr>isLoading := False\<rparr>)))) =
   filter is_write (requests w2)"
  by (cases res) (simp_all add: load_catch_fields load_settings_reads_requests)

lemma loadDataAndSettings_exists_result:
  assumes "checkFileExists E ''bookkeeping_data.json'' False (w\<lparr>isLoading := True\<rparr>) = (Inr exists, w1)"
    and "load_transactions E exists w1 = (res, w2)"
  shows "loadDataAndSettings E user w =
     (case res of
        Inl error \<Rightarrow> load_catch E user error w2
      | Inr u \<Rightarrow> (Inr (), (load_settings E w2)\<lparr>isLoading := False\<rparr>))"
  using assms by (simp add: loadDataAndSettings_def Let_def split: sum.splits)

lemma loadDataAndSettings_undetermined:
  assumes "checkFileExists E ''bookkeeping_data.json'' False (w\<lparr>isLoading := True\<rparr>) = (Inl error, w1)"
  shows "loadDataAndSettings E user w =
     (case status_of error of
        Inl thrown \<Rightarrow> (Inr (), (show_alert LoadFailed w1)\<lparr>isLoading := False\<rparr>)
      | Inr st \<Rightarrow>
          if st = Some 401 \<or> st = Some 400
          then (Inr (), (handleLogout E user (show_alert AuthExpired w1))\<lparr>isLoading := False\<rparr>)
          else (Inr (), (show_alert CannotCheckFile w1)\<lparr>isLoading := False\<rparr>))"
  using assms
  by (auto simp: loadDataAndSettings_def Let_def load_catch_TypeError
      split: sum.splits dest: status_of_thrown)

lemma loadDataAndSettings_undetermined_requests:
  assumes "checkFileExists E ''bookkeeping_data.json'' False (w\<lparr>isLoading := True\<rparr>) = (Inl error, w1)"
  shows "filter is_write (requests (snd (loadDataAndSettings E user w))) = filter is_write (requests w)"
proof -
  from checkFileExists_reads [OF assms] have "only_reads (w\<lparr>isLoading := True\<rparr>) w1" .
  then show ?thesis
    by (simp add: loadDataAndSettings_undetermined [OF assms] handleLogout_fields show_alert_def
        only_reads_def split: sum.splits)
qed

text \<open>
  C1, as amended. When the existence check of the transactions resource fails
  (neither present nor absent), \<open>loadDataAndSettings\<close> sends no request that changes the
  remote store, shows an alert and resolves (it does not reject); it leaves the
  in-memory transactions as they were unless the status of the error is 401 or 400,
  where it starts the logout, which empties them once the user has confirmed. And
  whenever a load changes the remote store at all, the client was authenticated, the
  metadata request failed with an error that says "path not found", and the one write
  is the upload of the empty collection.
\<close>

theorem load_exists_guard:
  "(checkFileExists E ''bookkeeping_data.json'' False (w\<lparr>isLoading := True\<rparr>) = (Inl error, w1) \<longrightarrow>
      fst (loadDataAndSettings E user w) = Inr ()
    \<and> filter is_write (requests (snd (loadDataAndSettings E user w))) = filter is_write (requests w)
    \<and> transactions (snd (loadDataAndSettings E user w)) =
        (if (status_of error = Inr (Some 401) \<or> status_of error = Inr (Some 400)) \<and> user ConfirmLogout
         then [] else transactions w)
    \<and> ui (snd (loadDataAndSettings E user w)) =
        ui w @
        [Alert (if status_of error = Inr (Some 401) \<or> status_of error = Inr (Some 400) then AuthExpired
                else if status_of error = Inl TypeError then LoadFailed else CannotCheckFile)] @
        (if (status_of error = Inr (Some 401) \<or> status_of error = Inr (Some 400))
            \<and> user ConfirmLogout \<and> user ConfirmOpenLogoutPage
         then [WindowOpen ''https://www.dropbox.com/logout''] else []))
   \<and> (filter is_write (requests (snd (loadDataAndSettings E user w))) \<noteq> filter is_write (requests w) \<longrightarrow>
        this_dbx w \<noteq> None
      \<and> confirmed_absent E (getPath ''bookkeeping_data.json'' w) w
      \<and> filter is_write (requests (snd (loadDataAndSettings E user w))) =
          filter is_write (requests w) @
            [Upload (getPath ''bookkeeping_data.json'' w) (TransactionsDoc [])])"
proof (intro conjI impI)
  assume c: "checkFileExists E ''bookkeeping_data.json'' False (w\<lparr>isLoading := True\<rparr>) = (Inl error, w1)"
  from checkFileExists_reads [OF c] have r: "only_reads (w\<lparr>isLoading := True\<rparr>) w1" .
  note eq = loadDataAndSettings_undetermined [OF c, of user]
  show "fst (loadDataAndSettings E user w) = Inr ()"
    by (simp add: eq split: sum.splits)
  show "filter is_write (requests (snd (loadDataAndSettings E user w))) = filter is_write (requests w)"
    by (rule loadDataAndSettings_undetermined_requests [OF c])
  show "transactions (snd (loadDataAndSettings E user w)) =
        (if (status_of error = Inr (Some 401) \<or> status_of error = Inr (Some 400)) \<and> user ConfirmLogout
         then [] else transactions w)"
    using r by (auto simp: eq handleLogout_fields show_alert_def only_reads_def split: sum.splits)
  show "ui (snd (loadDataAndSettings E user w)) =
        ui w @
        [Alert (if status_of error = Inr (Some 401) \<or> status_of error = Inr (Some 400) then AuthExpired
                else if status_of error = Inl TypeError then LoadFailed else CannotCheckFile)] @
        (if (status_of error = Inr (Some 401) \<or> status_of error = Inr (Some 400))
            \<and> user ConfirmLogout \<and> user ConfirmOpenLogoutPage
         then [WindowOpen ''https://www.dropbox.com/logout''] else [])"
    using r
    by (auto simp: eq handleLogout_fields show_alert_def only_reads_def
        split: sum.splits dest: status_of_thrown)
next
  assume changed:
    "filter is_write (requests (snd (loadDataAndSettings E user w))) \<noteq> filter is_write (requests w)"
  obtain res0 w1 where c: "checkFileExists E ''bookkeeping_data.json'' False (w\<lparr>isLoading := True\<rparr>) = (res0, w1)"
    by (cases "checkFileExists E ''bookkeeping_data.json'' False (w\<lparr>isLoading := True\<rparr>)")
  from checkFileExists_reads [OF c] have r: "only_reads (w\<lparr>isLoading := True\<rparr>) w1" .
  then have w1: "filter is_write (requests w1) = filter is_write (requests w)"
    "this_dbx w1 = this_dbx w" "getPath ''bookkeeping_data.json'' w1 = getPath ''bookkeeping_data.json'' w"
    by (simp_all add: only_reads_def session_def getPath_def Let_def)
  have absent: "res0 = Inr False \<and> this_dbx w \<noteq> None"
  proof (rule ccontr)
    assume n: "\<not> (res0 = Inr False \<and> this_dbx w \<noteq> None)"
    show False
    proof (cases res0)
      case (Inl error)
      with c changed show False
        by (simp add: loadDataAndSettings_undetermined_requests)
    next
      case (Inr exists)
      obtain res w2 where l: "load_transactions E exists w1 = (res, w2)"
        by (cases "load_transactions E exists w1")
      have "filter is_write (requests w2) = filter is_write (requests w1)"
      proof (cases exists)
        case True
        with l show ?thesis by (simp add: load_transactions_exists)
      next
        case False
        with n Inr have "this_dbx w1 = None" by (simp add: w1)
        with l False show ?thesis by (simp add: load_transactions_absent)
      qed
      with changed w1 show False
        by (simp add: loadDataAndSettings_exists_result [OF c [unfolded Inr] l]
            load_after_transactions)
    qed
  qed
  then have c': "checkFileExists E ''bookkeeping_data.json'' False (w\<lparr>isLoading := True\<rparr>) = (Inr False, w1)"
    and dbx: "this_dbx w \<noteq> None"
    using c by simp_all
  show "this_dbx w \<noteq> None" by (rule dbx)
  show "confirmed_absent E (getPath ''bookkeeping_data.json'' w) w"
    using checkFileExists_absent [OF c'] dbx
    by (simp add: confirmed_absent_def)
  obtain res w2 where l: "load_transactions E False w1 = (res, w2)"
    by (cases "load_transactions E False w1")
  show "filter is_write (requests (snd (loadDataAndSettings E user w))) =
          filter is_write (requests w) @
            [Upload (getPath ''bookkeeping_data.json'' w) (TransactionsDoc [])]"
    using load_transactions_absent [OF l] dbx w1
    by (simp add: loadDataAndSettings_exists_result [OF c' l] load_after_transactions)
qed

lemma str_includes_not_found_error: "str_includes (json not_found_error) ''path_not_found''"
  by (simp add: str_includes_def not_found_error_def sublist_code(3))

lemma str_includes_http_error: "\<not> str_includes (json (http_error n)) ''path_not_found''"
  by (simp add: str_includes_def http_error_def sublist_code(3))

lemma str_includes_network_error: "\<not> str_includes (json network_error) ''path_not_found''"
  by (simp add: str_includes_def network_error_def Error_def sublist_code(3))

text \<open>
  C1 as stated fails where the existence check fails with HTTP status 401 and the user
  confirms the logout: the load resolves, and the in-memory transactions, one before,
  are empty after.
\<close>

theorem load_auth_failure_counterexample:
  "fst (checkFileExists (quiet_sdk\<lparr>filesGetMetadata := (\<lambda>p r. (Inl (http_error 401), r))\<rparr>)
          ''bookkeeping_data.json'' False (signed_in\<lparr>isLoading := True\<rparr>)) = Inl (http_error 401)
   \<and> fst (loadDataAndSettings (quiet_sdk\<lparr>filesGetMetadata := (\<lambda>p r. (Inl (http_error 401), r))\<rparr>)
          (\<lambda>q. True) signed_in) = Inr ()
   \<and> transactions signed_in = [lunch]
   \<and> transactions (snd (loadDataAndSettings
          (quiet_sdk\<lparr>filesGetMetadata := (\<lambda>p r. (Inl (http_error 401), r))\<rparr>)
          (\<lambda>q. True) signed_in)) = []"
proof -
  let ?E = "quiet_sdk\<lparr>filesGetMetadata := (\<lambda>p r. (Inl (http_error 401), r))\<rparr>"
  have dbx: "this_dbx signed_in \<noteq> None" by (simp add: signed_in_def)
  have tag: "error_tag (http_error 401) = None" "path_lookup_tag (http_error 401) = None"
    by (simp_all add: http_error_def)
  have c: "checkFileExists ?E ''bookkeeping_data.json'' False (signed_in\<lparr>isLoading := True\<rparr>) =
      (Inl (http_error 401),
       signed_in\<lparr>isLoading := True,
                 requests := requests signed_in @ [GetMetadata (getPath ''bookkeeping_data.json'' signed_in)]\<rparr>)"
    using dbx
    by (simp add: checkFileExists_def sdk_call_eq Let_def tag str_includes_http_error quiet_sdk_def)
  have st: "status_of (http_error 401) = Inr (Some 401)"
    by (simp add: status_of_def http_error_def)
  show ?thesis
    by (simp add: c loadDataAndSettings_undetermined [OF c] st handleLogout_def Let_def
        show_alert_def logout_def sdk_call_eq)
       (simp add: signed_in_def)
qed

text \<open>
  C1, as amended, at two loads of the signed-in application: with the network down
  during the existence check (nothing written, the transaction kept, one alert), and
  with the resource reported as not found (the empty collection is uploaded).
\<close>

theorem load_exists_guard_witness:
  "fst (checkFileExists (quiet_sdk\<lparr>filesGetMetadata := (\<lambda>p r. (Inl network_error, r))\<rparr>)
          ''bookkeeping_data.json'' False (signed_in\<lparr>isLoading := True\<rparr>)) = Inl network_error
   \<and> fst (loadDataAndSettings (quiet_sdk\<lparr>filesGetMetadata := (\<lambda>p r. (Inl network_error, r))\<rparr>)
          (\<lambda>q. True) signed_in) = Inr ()
   \<and> transactions (snd (loadDataAndSettings
          (quiet_sdk\<lparr>filesGetMetadata := (\<lambda>p r. (Inl network_error, r))\<rparr>)
          (\<lambda>q. True) signed_in)) = [lunch]
   \<and> ui (snd (loadDataAndSettings
          (quiet_sdk\<lparr>filesGetMetadata := (\<lambda>p r. (Inl network_error, r))\<rparr>)
          (\<lambda>q. True) signed_in)) = [Alert CannotCheckFile]
   \<and> filter is_write (requests (snd (loadDataAndSettings
          (quiet_sdk\<lparr>filesGetMetadata := (\<lambda>p r. (Inl network_error, r))\<rparr>)
          (\<lambda>q. True) signed_in))) = []
   \<and> filter is_write (requests (snd (loadDataAndSettings
          (quiet_sdk\<lparr>filesGetMetadata := (\<lambda>p r. (Inl not_found_error, r))\<rparr>)
          (\<lambda>q. True) signed_in))) = [Upload ''/bookkeeping_data.json'' (TransactionsDoc [])]
   \<and> confirmed_absent (quiet_sdk\<lparr>filesGetMetadata := (\<lambda>p r. (Inl not_found_error, r))\<rparr>)
          ''/bookkeeping_data.json'' signed_in"
proof -
  let ?E = "quiet_sdk\<lparr>filesGetMetadata := (\<lambda>p r. (Inl network_error, r))\<rparr>"
  let ?A = "quiet_sdk\<lparr>filesGetMetadata := (\<lambda>p r. (Inl not_found_error, r))\<rparr>"
  let ?w1 = "signed_in\<lparr>isLoading := True,
      requests := requests signed_in @ [GetMetadata (getPath ''bookkeeping_data.json'' signed_in)]\<rparr>"
  have dbx: "this_dbx signed_in = Some (Dropbox ''token'' None)" by (simp add: signed_in_def)
  have path: "getPath ''bookkeeping_data.json'' signed_in = ''/bookkeeping_data.json''"
    by (simp add: getPath_def signed_in_def startsWith_def)
  have tag: "error_tag network_error = None" "path_lookup_tag network_error = None"
    by (simp_all add: network_error_def Error_def)
  have c: "checkFileExists ?E ''bookkeeping_data.json'' False (signed_in\<lparr>isLoading := True\<rparr>) =
      (Inl network_error, ?w1)"
    using dbx
    by (simp add: checkFileExists_def sdk_call_eq Let_def tag str_includes_network_error quiet_sdk_def)
  have st: "status_of network_error = Inr None"
    by (simp add: status_of_def network_error_def Error_def)
  have base: "transactions signed_in = [lunch]" "ui signed_in = []" "requests signed_in = []"
    by (simp_all add: signed_in_def)
  note first = load_exists_guard [of ?E signed_in network_error ?w1 "\<lambda>q. True", THEN conjunct1,
      rule_format, OF c]
  have ca: "checkFileExists ?A ''bookkeeping_data.json'' False (signed_in\<lparr>isLoading := True\<rparr>) =
      (Inr False, ?w1)"
    using dbx
    by (simp add: checkFileExists_def sdk_call_eq Let_def str_includes_not_found_error quiet_sdk_def)
  have la: "load_transactions ?A False ?w1 =
      (Inr (), ?w1\<lparr>requests := requests ?w1 @ [Upload ''/bookkeeping_data.json'' (TransactionsDoc [])],
                    transactions := []\<rparr>)"
    using dbx
    by (simp add: load_transactions_def uploadFile_def sdk_call_eq Let_def quiet_sdk_def path
        getPath_def [of _ "signed_in\<lparr>isLoading := True, requests := _\<rparr>"] startsWith_def)
       (simp add: signed_in_def)
  have changed: "filter is_write (requests (snd (loadDataAndSettings ?A (\<lambda>q. True) signed_in))) \<noteq>
      filter is_write (requests signed_in)"
    by (simp add: loadDataAndSettings_exists_result [OF ca la] load_settings_reads_requests base)
  note second = load_exists_guard [of ?A signed_in network_error ?w1 "\<lambda>q. True", THEN conjunct2,
      rule_format, OF changed]
  from first second show ?thesis
    by (simp add: c st base path)
qed

lemma uploadFile_fst_cong:
  "this_dbx w' = this_dbx w \<Longrightarrow> this_currentProfile w' = this_currentProfile w \<Longrightarrow>
   outside w' = outside w \<Longrightarrow>
   fst (uploadFile E d f a w') = fst (uploadFile E d f a w)"
  by (simp add: uploadFile_def sdk_call_eq Let_def getPath_def)

lemma uploadFile_keeps:
  "session (snd (uploadFile E d f a w)) = session w"
  "ui (snd (uploadFile E d f a w)) = ui w"
  "transactions (snd (uploadFile E d f a w)) = transactions w"
  "settings (snd (uploadFile E d f a w)) = settings w"
  by (simp_all add: uploadFile_def sdk_call_eq Let_def session_def)

lemma handleAddTransaction_session:
  "session (handleAddTransaction E ts w) = session w"
  by (simp add: handleAddTransaction_def uploadFile_def sdk_call_eq Let_def show_alert_def
      updateSuggestions_def session_def split: prod.splits sum.splits)

lemma handleDeleteTransaction_session:
  "session (handleDeleteTransaction E user ident w) = session w"
  by (simp add: handleDeleteTransaction_def uploadFile_def sdk_call_eq Let_def show_alert_def
      session_def split: prod.splits sum.splits)

lemma handleSaveSettings_session:
  "session (handleSaveSettings E s w) = session w"
  by (simp add: handleSaveSettings_def saveSettings_def uploadFile_def sdk_call_eq Let_def
      show_alert_def session_def split: prod.splits sum.splits)

lemma handleAddTransaction_failure:
  assumes "fst (uploadFile E (TransactionsDoc (transactions (handleAddTransaction E ts w)))
                  ''bookkeeping_data.json'' False w) = Inl e"
  shows "last (ui (handleAddTransaction E ts w)) = Alert (SaveFailed (save_error_text e))"
proof -
  let ?updated = "transactions (handleAddTransaction E ts w)"
  let ?w1 = "if editingTransaction w \<noteq> None \<and> length ts = 1
             then show_alert EditDone (w\<lparr>editingTransaction := None\<rparr>) else w"
  let ?w2 = "updateSuggestions ?updated (?w1\<lparr>transactions := ?updated\<rparr>)"
  have upd: "?updated = (if editingTransaction w \<noteq> None \<and> length ts = 1
      then map (\<lambda>t. if tx_id t = tx_id (hd ts) then hd ts else t) (transactions w)
      else transactions w @ ts)"
    by (simp add: handleAddTransaction_transactions)
  have "fst (uploadFile E (TransactionsDoc ?updated) ''bookkeeping_data.json'' False ?w2) =
        fst (uploadFile E (TransactionsDoc ?updated) ''bookkeeping_data.json'' False w)"
    by (rule uploadFile_fst_cong) (simp_all add: updateSuggestions_def show_alert_def)
  with assms obtain w3 where
    u: "uploadFile E (TransactionsDoc ?updated) ''bookkeeping_data.json'' False ?w2 = (Inl e, w3)"
    by (cases "uploadFile E (TransactionsDoc ?updated) ''bookkeeping_data.json'' False ?w2") simp
  have "handleAddTransaction E ts w = show_alert (SaveFailed (save_error_text e)) w3"
    using u unfolding upd by (simp add: handleAddTransaction_def Let_def)
  then show ?thesis by (simp add: show_alert_def)
qed

lemma handleDeleteTransaction_failure:
  assumes "user ConfirmDeleteTransaction"
    and "fst (uploadFile E (TransactionsDoc (filter (\<lambda>t. tx_id t \<noteq> ident) (transactions w)))
                  ''bookkeeping_data.json'' False w) = Inl e"
  shows "last (ui (handleDeleteTransaction E user ident w)) = Alert DeleteFailed
       \<and> transactions (handleDeleteTransaction E user ident w) =
           filter (\<lambda>t. tx_id t \<noteq> ident) (transactions w)"
proof -
  let ?updated = "filter (\<lambda>t. tx_id t \<noteq> ident) (transactions w)"
  let ?w1 = "w\<lparr>transactions := ?updated\<rparr>"
  have "fst (uploadFile E (TransactionsDoc ?updated) ''bookkeeping_data.json'' False ?w1) =
        fst (uploadFile E (TransactionsDoc ?updated) ''bookkeeping_data.json'' False w)"
    by (rule uploadFile_fst_cong) simp_all
  with assms obtain w2 where
    u: "uploadFile E (TransactionsDoc ?updated) ''bookkeeping_data.json'' False ?w1 = (Inl e, w2)"
    by (cases "uploadFile E (TransactionsDoc ?updated) ''bookkeeping_data.json'' False ?w1") simp
  have "handleDeleteTransaction E user ident w = show_alert DeleteFailed w2"
    using u assms(1) by (simp add: handleDeleteTransaction_def Let_def)
  moreover have "transactions w2 = ?updated"
    using uploadFile_keeps(3) [of E "TransactionsDoc ?updated" "''bookkeeping_data.json''" False ?w1] u
    by simp
  ultimately show ?thesis by (simp add: show_alert_def)
qed

lemma handleSaveSettings_failure:
  assumes "fst (saveSettings E s w) = Inl e"
  shows "last (ui (handleSaveSettings E s w)) = Alert SettingsSaveFailed
       \<and> settings (handleSaveSettings E s w) = s"
proof -
  let ?w1 = "w\<lparr>settings := s\<rparr>"
  have "fst (saveSettings E s ?w1) = fst (saveSettings E s w)"
    unfolding saveSettings_def by (rule uploadFile_fst_cong) simp_all
  with assms obtain w2 where u: "saveSettings E s ?w1 = (Inl e, w2)"
    by (cases "saveSettings E s ?w1") simp
  have "handleSaveSettings E s w = show_alert SettingsSaveFailed w2"
    using u by (simp add: handleSaveSettings_def Let_def)
  moreover have "settings w2 = s"
    using uploadFile_keeps(4) [of E "SettingsDoc s" "''settings.json''" False ?w1] u
    by (simp add: saveSettings_def)
  ultimately show ?thesis by (simp add: show_alert_def)
qed

text \<open>
  C7, as amended. No persistence handler (add or update, remove, save settings) touches
  the session, whether its write succeeds or fails and whatever the error is: the
  client handle, the stored tokens and the authenticated flag stay as they were. A
  failed write is reported by an alert, and the in-memory state keeps the change: the
  transactions with the addition, the update or the removal applied, and the settings
  as saved.
\<close>

theorem persistence_failure_keeps_session:
  "session (handleAddTransaction E ts w) = session w
   \<and> session (handleDeleteTransaction E user ident w) = session w
   \<and> session (handleSaveSettings E s w) = session w
   \<and> (fst (uploadFile E (TransactionsDoc (transactions (handleAddTransaction E ts w)))
             ''bookkeeping_data.json'' False w) = Inl e \<longrightarrow>
        last (ui (handleAddTransaction E ts w)) = Alert (SaveFailed (save_error_text e))
        \<and> transactions (handleAddTransaction E ts w) =
            (if editingTransaction w \<noteq> None \<and> length ts = 1
             then map (\<lambda>t. if tx_id t = tx_id (hd ts) then hd ts else t) (transactions w)
             else transactions w @ ts))
   \<and> (user ConfirmDeleteTransaction
        \<and> fst (uploadFile E (TransactionsDoc (filter (\<lambda>t. tx_id t \<noteq> ident) (transactions w)))
               ''bookkeeping_data.json'' False w) = Inl e \<longrightarrow>
        last (ui (handleDeleteTransaction E user ident w)) = Alert DeleteFailed
        \<and> transactions (handleDeleteTransaction E user ident w) =
            filter (\<lambda>t. tx_id t \<noteq> ident) (transactions w))
   \<and> (fst (saveSettings E s w) = Inl e \<longrightarrow>
        last (ui (handleSaveSettings E s w)) = Alert SettingsSaveFailed
        \<and> settings (handleSaveSettings E s w) = s)"
  using handleAddTransaction_failure [of E ts w e]
    handleDeleteTransaction_failure [of user E ident w e]
    handleSaveSettings_failure [of E s w e]
  by (simp add: handleAddTransaction_session handleDeleteTransaction_session
      handleSaveSettings_session handleAddTransaction_transactions)

lemma signed_in_upload_401:
  "fst (uploadFile (quiet_sdk\<lparr>filesUpload := (\<lambda>p d r. (Inl (http_error 401), r))\<rparr>) d
          ''bookkeeping_data.json'' False signed_in) = Inl (http_error 401)"
  by (simp add: uploadFile_def sdk_call_eq Let_def signed_in_def)

text \<open>
  C7 as stated fails where the upload of an added transaction fails with HTTP status
  401: the client handle, the stored token and the authenticated flag are all kept, and
  the transaction stays in memory.
\<close>

theorem auth_failure_keeps_session_counterexample:
  "fst (uploadFile (quiet_sdk\<lparr>filesUpload := (\<lambda>p d r. (Inl (http_error 401), r))\<rparr>)
          (TransactionsDoc [lunch, lunch\<lparr>tx_id := ''t2''\<rparr>]) ''bookkeeping_data.json'' False signed_in)
     = Inl (http_error 401)
   \<and> this_dbx (handleAddTransaction
        (quiet_sdk\<lparr>filesUpload := (\<lambda>p d r. (Inl (http_error 401), r))\<rparr>)
        [lunch\<lparr>tx_id := ''t2''\<rparr>] signed_in) = Some (Dropbox ''token'' None)
   \<and> localStorage (handleAddTransaction
        (quiet_sdk\<lparr>filesUpload := (\<lambda>p d r. (Inl (http_error 401), r))\<rparr>)
        [lunch\<lparr>tx_id := ''t2''\<rparr>] signed_in) ''dropbox_token'' = Some ''token''
   \<and> isAuthenticated (handleAddTransaction
        (quiet_sdk\<lparr>filesUpload := (\<lambda>p d r. (Inl (http_error 401), r))\<rparr>)
        [lunch\<lparr>tx_id := ''t2''\<rparr>] signed_in)
   \<and> transactions (handleAddTransaction
        (quiet_sdk\<lparr>filesUpload := (\<lambda>p d r. (Inl (http_error 401), r))\<rparr>)
        [lunch\<lparr>tx_id := ''t2''\<rparr>] signed_in) = [lunch, lunch\<lparr>tx_id := ''t2''\<rparr>]"
proof -
  let ?E = "quiet_sdk\<lparr>filesUpload := (\<lambda>p d r. (Inl (http_error 401), r))\<rparr>"
  have s: "session (handleAddTransaction ?E [lunch\<lparr>tx_id := ''t2''\<rparr>] signed_in) = session signed_in"
    by (rule handleAddTransaction_session)
  have t: "transactions (handleAddTransaction ?E [lunch\<lparr>tx_id := ''t2''\<rparr>] signed_in) =
      [lunch, lunch\<lparr>tx_id := ''t2''\<rparr>]"
    by (simp add: handleAddTransaction_transactions) (simp add: signed_in_def)
  from s have "this_dbx (handleAddTransaction ?E [lunch\<lparr>tx_id := ''t2''\<rparr>] signed_in) = this_dbx signed_in"
    "localStorage (handleAddTransaction ?E [lunch\<lparr>tx_id := ''t2''\<rparr>] signed_in) = localStorage signed_in"
    "isAuthenticated (handleAddTransaction ?E [lunch\<lparr>tx_id := ''t2''\<rparr>] signed_in) = isAuthenticated signed_in"
    by (simp_all add: session_def)
  then show ?thesis
    by (simp add: t signed_in_upload_401) (simp add: signed_in_def)
qed

text \<open>
  C7, as amended, at the signed-in application with the network down for every upload.
\<close>

theorem persistence_failure_keeps_session_witness:
  "fst (uploadFile (quiet_sdk\<lparr>filesUpload := (\<lambda>p d r. (Inl network_error, r))\<rparr>)
          (TransactionsDoc []) ''bookkeeping_data.json'' False signed_in) = Inl network_error
   \<and> fst (saveSettings (quiet_sdk\<lparr>filesUpload := (\<lambda>p d r. (Inl network_error, r))\<rparr>)
          DEFAULT_SETTINGS signed_in) = Inl network_error
   \<and> session (handleDeleteTransaction (quiet_sdk\<lparr>filesUpload := (\<lambda>p d r. (Inl network_error, r))\<rparr>)
          (\<lambda>q. True) ''t1'' signed_in) = session signed_in
   \<and> last (ui (handleDeleteTransaction (quiet_sdk\<lparr>filesUpload := (\<lambda>p d r. (Inl network_error, r))\<rparr>)
          (\<lambda>q. True) ''t1'' signed_in)) = Alert DeleteFailed
   \<and> transactions (handleDeleteTransaction
          (quiet_sdk\<lparr>filesUpload := (\<lambda>p d r. (Inl network_error, r))\<rparr>)
          (\<lambda>q. True) ''t1'' signed_in) = []
   \<and> last (ui (handleAddTransaction (quiet_sdk\<lparr>filesUpload := (\<lambda>p d r. (Inl network_error, r))\<rparr>)
          [lunch] signed_in)) = Alert (SaveFailed ''Failed to fetch'')
   \<and> transactions (handleAddTransaction
          (quiet_sdk\<lparr>filesUpload := (\<lambda>p d r. (Inl network_error, r))\<rparr>)
          [lunch] signed_in) = [lunch, lunch]
   \<and> last (ui (handleSaveSettings (quiet_sdk\<lparr>filesUpload := (\<lambda>p d r. (Inl network_error, r))\<rparr>)
          DEFAULT_SETTINGS signed_in)) = Alert SettingsSaveFailed"
proof -
  let ?E = "quiet_sdk\<lparr>filesUpload := (\<lambda>p d r. (Inl network_error, r))\<rparr>"
  have up: "fst (uploadFile ?E d f False signed_in) = Inl network_error" for d f
    by (simp add: uploadFile_def sdk_call_eq Let_def signed_in_def)
  have txs: "transactions signed_in = [lunch]" "tx_id lunch = ''t1''"
    "editingTransaction signed_in = None"
    by (simp_all add: signed_in_def lunch_def)
  have msg: "save_error_text network_error = ''Failed to fetch''"
    by (simp add: save_error_text_def network_error_def Error_def)
  from persistence_failure_keeps_session [of ?E "[lunch]" signed_in "\<lambda>q. True" "''t1''"
      DEFAULT_SETTINGS network_error]
  show ?thesis
    by (simp add: up txs msg saveSettings_def)
qed

section \<open>Properties of the profile directory\<close>







end
